theory Spec2Isabelle
  imports Complex_Main "HOL-Library.Sublist"
begin

section \<open>The sandbox timeout manager of \<^verbatim>\<open>lib/sandbox-timeout-manager.ts\<close>\<close>

text \<open>
  The class \<^verbatim>\<open>SandboxTimeoutManager\<close> wraps a remote sandbox handle. It runs an
  asynchronous operation with a per-call timeout and a bounded number of attempts, asks
  the sandbox for a longer lease when a failure looks like a timeout, and renews the lease
  from a periodic timer. The embedding below follows the TypeScript function by function.

  \<^item> An object is a record of its fields; a method takes the object and the runtime and
    returns both, updated.
  \<^item> An asynchronous method ends in one of three ways: it returns, it throws (its promise
    rejects), or it never settles because something it awaits never does. Every
    \<^verbatim>\<open>try\<close>/\<^verbatim>\<open>catch\<close>/\<^verbatim>\<open>finally\<close> of the source is a case distinction on the three.
  \<^item> What the outside world decides is an oracle indexed by the number of the call: the
    successive readings of \<^verbatim>\<open>Date.now()\<close>, the way the k-th invocation of the operation
    settles, and whether the k-th remote \<^verbatim>\<open>sandbox.setTimeout\<close> resolves, rejects or
    stays pending.
  \<^item> One call runs from its start to its end: no second call on the same manager is
    interleaved at an \<^verbatim>\<open>await\<close>. The methods accept every state, so a state in which a
    renewal is already under way (\<open>isExtending\<close> set) is an ordinary input.
  \<^item> Numbers are integers, as the configuration gives them (retry counts, milliseconds,
    minutes); the one fraction of the source, \<^verbatim>\<open>0.8\<close>, is a rational.
\<close>

subsection \<open>JavaScript values\<close>

text \<open>
  An \<^verbatim>\<open>Error\<close>: an object with a string \<^verbatim>\<open>message\<close>. \<^verbatim>\<open>Error | null\<close> is
  \<open>js_error option\<close>.
\<close>

datatype js_error = Error (message: string)

text \<open>
  A promise can reject with any value, and \<^verbatim>\<open>catch\<close> receives it untyped. The source
  casts it (\<^verbatim>\<open>error as Error\<close>) without a check. A caught value is therefore either an
  \<^verbatim>\<open>Error\<close> or something without a string \<^verbatim>\<open>message\<close>: a string, \<^verbatim>\<open>null\<close>,
  \<^verbatim>\<open>undefined\<close>, a number. Reading \<^verbatim>\<open>message.toLowerCase()\<close> from the latter raises a
  \<^verbatim>\<open>TypeError\<close>; its message is the engine's, and \<open>OtherValue\<close> carries it.
\<close>

datatype js_value = ErrorValue js_error | OtherValue string

text \<open>
  How a call of an asynchronous method ends. \<open>NeverSettles\<close> comes with the state the
  method had reached at the \<^verbatim>\<open>await\<close> that does not resume.
\<close>

datatype ('e, 'a) completion = Returns 'a | Throws 'e | NeverSettles

text \<open>
  How the race of \<^verbatim>\<open>withTimeout\<close> between the operation's promise and the timer ends:
  the promise resolves first, it rejects first, or the timer fires first.
\<close>

datatype 'a settled = Resolved 'a | Rejected js_value | TimerFirst

datatype console_entry =
    ConsoleLog string
  | ConsoleWarn string
  | ConsoleError string js_value

subsection \<open>Strings\<close>

text \<open>
  \<^verbatim>\<open>String.prototype.toLowerCase\<close>, modelled on the ASCII letters \<open>A\<close> to \<open>Z\<close>, which
  is where the five keywords of the classification live; every other character is kept.
\<close>

definition toLowerCase_char :: "char \<Rightarrow> char" where
  "toLowerCase_char c =
     (let n = (of_char c :: nat) in if 65 \<le> n \<and> n \<le> 90 then char_of (n + 32) else c)"

definition toLowerCase :: "string \<Rightarrow> string" where
  "toLowerCase s = map toLowerCase_char s"

text \<open>\<^verbatim>\<open>String.prototype.includes\<close>: the keyword occurs at some position.\<close>

fun str_includes :: "string \<Rightarrow> string \<Rightarrow> bool" where
  "str_includes [] kw = (kw = [])"
| "str_includes (c # cs) kw = (prefix kw (c # cs) \<or> str_includes cs kw)"

text \<open>The decimal text a template literal produces for an integral number.\<close>

fun digits :: "nat \<Rightarrow> string" where
  "digits n =
     (if n < 10 then [char_of (48 + n)] else digits (n div 10) @ [char_of (48 + n mod 10)])"

definition number_toString :: "int \<Rightarrow> string" where
  "number_toString i = (if i < 0 then CHR ''-'' # digits (nat (- i)) else digits (nat i))"

subsection \<open>Configuration\<close>

text \<open>
  \<^verbatim>\<open>appConfig.e2b\<close> comes from \<^verbatim>\<open>config/app.config.ts\<close>, which is not among the
  sources; it is a parameter of the model.
\<close>

record e2b_config =
  cfg_timeoutMs :: int
  cfg_timeoutMinutes :: int
  cfg_maxRetries :: int
  cfg_retryDelay :: int
  cfg_processTimeout :: int
  cfg_connectionTimeout :: int
  cfg_autoExtendThreshold :: "int option"

text \<open>
  The interface \<^verbatim>\<open>TimeoutManagerOptions\<close> as a caller passes it: every key optional
  (\<open>None\<close>: the key is absent). The source reads four of the keys through a non-null
  assertion (\<^verbatim>\<open>maxRetries!\<close>); where such a key is present it holds a number.
  \<^verbatim>\<open>autoExtendThreshold\<close> is tested for truthiness instead, and a caller may pass the
  key with the value \<^verbatim>\<open>undefined\<close> (\<open>Some None\<close>).
\<close>

record TimeoutManagerOptions =
  opt_maxRetries :: "int option"
  opt_retryDelay :: "int option"
  opt_processTimeout :: "int option"
  opt_connectionTimeout :: "int option"
  opt_autoExtendThreshold :: "int option option"

text \<open>
  \<^verbatim>\<open>this.options\<close> after the constructor has spread the caller's keys over the
  defaults: a key that is present wins, also when its value is \<^verbatim>\<open>undefined\<close>.
\<close>

record manager_options =
  maxRetries :: int
  retryDelay :: int
  processTimeout :: int
  connectionTimeout :: int
  autoExtendThreshold :: "int option"

definition merge_options :: "e2b_config \<Rightarrow> TimeoutManagerOptions \<Rightarrow> manager_options" where
  "merge_options cfg opts =
     \<lparr> maxRetries = (case opt_maxRetries opts of Some v \<Rightarrow> v | None \<Rightarrow> cfg_maxRetries cfg),
       retryDelay = (case opt_retryDelay opts of Some v \<Rightarrow> v | None \<Rightarrow> cfg_retryDelay cfg),
       processTimeout =
         (case opt_processTimeout opts of Some v \<Rightarrow> v | None \<Rightarrow> cfg_processTimeout cfg),
       connectionTimeout =
         (case opt_connectionTimeout opts of Some v \<Rightarrow> v | None \<Rightarrow> cfg_connectionTimeout cfg),
       autoExtendThreshold =
         (case opt_autoExtendThreshold opts of Some v \<Rightarrow> v
          | None \<Rightarrow> cfg_autoExtendThreshold cfg) \<rparr>"

subsection \<open>The sandbox handle, the manager and the runtime\<close>

text \<open>
  The sandbox is typed \<^verbatim>\<open>any\<close>; the manager probes it for a \<^verbatim>\<open>setTimeout\<close> method.
  When the method is there, the promise of its k-th call with argument \<open>ms\<close> resolves,
  rejects with some value, or stays pending for ever. The manager awaits it without a
  timer of its own.
\<close>

datatype renewal = RenewalResolves | RenewalRejects js_value | RenewalPending

record sandbox_handle =
  sandbox_setTimeout :: "(nat \<Rightarrow> int \<Rightarrow> renewal) option"

record SandboxTimeoutManager =
  sandbox :: sandbox_handle
  options :: manager_options
  lastActivity :: int
  autoExtendTimer :: "nat option"
  isExtending :: bool

text \<open>
  The runtime around the manager: the clock (the successive readings of \<^verbatim>\<open>Date.now()\<close>
  and how many were taken), the interval timers that are armed, the delays that were
  awaited and the console. Three counters record the calls that the properties speak
  about: of the operation, of the remote \<^verbatim>\<open>sandbox.setTimeout\<close>, and of
  \<open>extendSandboxTimeout\<close> itself. The last one is bookkeeping of the model; the program
  has no such field.
\<close>

record runtime =
  clock :: "nat \<Rightarrow> int"
  clock_reads :: nat
  op_calls :: nat
  remote_calls :: nat
  extend_calls :: nat
  delays :: "int list"
  intervals :: "(nat \<times> int) list"
  next_timer :: nat
  console :: "console_entry list"

definition Date_now :: "runtime \<Rightarrow> int \<times> runtime" where
  "Date_now rt = (clock rt (clock_reads rt), rt\<lparr>clock_reads := Suc (clock_reads rt)\<rparr>)"

definition console_log :: "string \<Rightarrow> runtime \<Rightarrow> runtime" where
  "console_log s rt = rt\<lparr>console := console rt @ [ConsoleLog s]\<rparr>"

definition console_warn :: "string \<Rightarrow> runtime \<Rightarrow> runtime" where
  "console_warn s rt = rt\<lparr>console := console rt @ [ConsoleWarn s]\<rparr>"

definition console_error :: "string \<Rightarrow> js_value \<Rightarrow> runtime \<Rightarrow> runtime" where
  "console_error s e rt = rt\<lparr>console := console rt @ [ConsoleError s e]\<rparr>"

definition setInterval :: "int \<Rightarrow> runtime \<Rightarrow> nat \<times> runtime" where
  "setInterval ms rt =
     (next_timer rt,
      rt\<lparr>intervals := intervals rt @ [(next_timer rt, ms)], next_timer := Suc (next_timer rt)\<rparr>)"

definition clearInterval :: "nat \<Rightarrow> runtime \<Rightarrow> runtime" where
  "clearInterval t rt = rt\<lparr>intervals := filter (\<lambda>(i, ms). i \<noteq> t) (intervals rt)\<rparr>"

definition delay :: "int \<Rightarrow> runtime \<Rightarrow> runtime" where
  "delay ms rt = rt\<lparr>delays := delays rt @ [ms]\<rparr>"

text \<open>Calling \<^verbatim>\<open>operation()\<close>: the next entry of the oracle, and one more call counted.\<close>

definition invoke :: "(nat \<Rightarrow> 'a settled) \<Rightarrow> runtime \<Rightarrow> 'a settled \<times> runtime" where
  "invoke operation rt = (operation (op_calls rt), rt\<lparr>op_calls := Suc (op_calls rt)\<rparr>)"

subsection \<open>Private methods\<close>

definition updateLastActivity ::
  "SandboxTimeoutManager \<Rightarrow> runtime \<Rightarrow> SandboxTimeoutManager \<times> runtime" where
  "updateLastActivity this rt =
     (let (now, rt1) = Date_now rt in (this\<lparr>lastActivity := now\<rparr>, rt1))"

definition withTimeout :: "'a settled \<Rightarrow> int \<Rightarrow> js_value + 'a" where
  "withTimeout promise timeoutMs =
     (case promise of
        Resolved v \<Rightarrow> Inr v
      | Rejected e \<Rightarrow> Inl e
      | TimerFirst \<Rightarrow>
          Inl (ErrorValue
                 (Error (''Operation timed out after '' @ number_toString timeoutMs @ ''ms''))))"

definition timeoutKeywords :: "string list" where
  "timeoutKeywords = [''timeout'', ''502'', ''not found'', ''expired'', ''terminated'']"

definition isTimeoutError :: "js_error \<Rightarrow> bool" where
  "isTimeoutError error =
     (let errorMessage = toLowerCase (message error)
      in list_ex (\<lambda>keyword. str_includes errorMessage keyword) timeoutKeywords)"

subsection \<open>Extending the sandbox timeout\<close>

text \<open>
  \<^verbatim>\<open>extendSandboxTimeout\<close>. The \<^verbatim>\<open>finally\<close> block clears \<open>isExtending\<close> on each of
  the three ways out of the \<^verbatim>\<open>try\<close>: the remote call resolved, it rejected (the error
  goes on to the caller), or the sandbox has no \<^verbatim>\<open>setTimeout\<close>. When the remote call
  stays pending the \<^verbatim>\<open>await\<close> never resumes: the method does not settle and the flag
  stays set.
\<close>

definition extendSandboxTimeout ::
  "e2b_config \<Rightarrow> SandboxTimeoutManager \<Rightarrow> runtime
     \<Rightarrow> (js_value, unit) completion \<times> SandboxTimeoutManager \<times> runtime" where
  "extendSandboxTimeout cfg this rt0 =
     (let rt = rt0\<lparr>extend_calls := Suc (extend_calls rt0)\<rparr> in
      if isExtending this then
        (Returns (), this,
         console_log ''[SandboxTimeoutManager] Already extending timeout, skipping...'' rt)
      else
        let this1 = this\<lparr>isExtending := True\<rparr> in
        (case sandbox_setTimeout (sandbox this1) of
           Some f \<Rightarrow>
             (let rt1 = rt\<lparr>remote_calls := Suc (remote_calls rt)\<rparr> in
              case f (remote_calls rt) (cfg_timeoutMs cfg) of
                RenewalResolves \<Rightarrow>
                  (let rt2 = console_log (''[SandboxTimeoutManager] Extended sandbox timeout to ''
                               @ number_toString (cfg_timeoutMinutes cfg) @ '' minutes'') rt1;
                       (this2, rt3) = updateLastActivity this1 rt2
                   in (Returns (), this2\<lparr>isExtending := False\<rparr>, rt3))
              | RenewalRejects e \<Rightarrow> (Throws e, this1\<lparr>isExtending := False\<rparr>, rt1)
              | RenewalPending \<Rightarrow> (NeverSettles, this1, rt1))
         | None \<Rightarrow>
             (Returns (), this1\<lparr>isExtending := False\<rparr>,
              console_warn ''[SandboxTimeoutManager] setTimeout method not available on sandbox''
                rt)))"

subsection \<open>Executing with timeout and retries\<close>

text \<open>
  How one pass through the body of the \<^verbatim>\<open>for\<close> loop ends: with the \<^verbatim>\<open>return\<close> of
  the result, with a \<^verbatim>\<open>throw\<close> out of the \<^verbatim>\<open>catch\<close> clause, at the end of the body
  (on to the next attempt), or never, in an \<^verbatim>\<open>await\<close> that does not resume.
\<close>

datatype 'a step = Return 'a | Throw js_error | Continue js_error | Stall

definition failure_message :: "string \<Rightarrow> int \<Rightarrow> js_error \<Rightarrow> string" where
  "failure_message operationName n lastError =
     ''Failed to execute '' @ operationName @ '' after '' @ number_toString n
       @ '' attempts. Last error: '' @ message lastError"

text \<open>
  The \<^verbatim>\<open>if (this.isTimeoutError(error))\<close> statement of the \<^verbatim>\<open>catch\<close> clause, with
  its inner \<^verbatim>\<open>try\<close>/\<^verbatim>\<open>catch\<close> around the renewal, once the test has given
  \<open>timeoutLike\<close>.
\<close>

definition extend_on_timeout ::
  "e2b_config \<Rightarrow> bool \<Rightarrow> SandboxTimeoutManager \<Rightarrow> runtime
     \<Rightarrow> (js_error, unit) completion \<times> SandboxTimeoutManager \<times> runtime" where
  "extend_on_timeout cfg timeoutLike this rt =
     (if timeoutLike then
        (case extendSandboxTimeout cfg this
                (console_log
                   ''[SandboxTimeoutManager] Timeout detected, attempting to extend sandbox...''
                   rt) of
           (Returns u, this', rt') \<Rightarrow>
             (Returns (), this',
              console_log ''[SandboxTimeoutManager] Sandbox timeout extended successfully'' rt')
         | (Throws extendError, this', rt') \<Rightarrow>
             (Returns (), this',
              console_error ''[SandboxTimeoutManager] Failed to extend sandbox timeout:''
                extendError rt')
         | (NeverSettles, this', rt') \<Rightarrow> (NeverSettles, this', rt'))
      else (Returns (), this, rt))"

text \<open>
  One pass through the loop body. In the \<^verbatim>\<open>catch\<close> clause the test
  \<^verbatim>\<open>this.isTimeoutError(error as Error)\<close> stands outside the inner \<^verbatim>\<open>try\<close>, and the
  cast checks nothing: on a caught value without a string \<^verbatim>\<open>message\<close> the test throws
  the \<^verbatim>\<open>TypeError\<close>, which leaves the clause and the method. Past the test the caught
  value is an \<^verbatim>\<open>Error\<close>, whose message the final error wraps.
\<close>

definition attempt_body ::
  "e2b_config \<Rightarrow> (nat \<Rightarrow> 'a settled) \<Rightarrow> string \<Rightarrow> int \<Rightarrow> SandboxTimeoutManager \<Rightarrow> runtime
     \<Rightarrow> 'a step \<times> SandboxTimeoutManager \<times> runtime" where
  "attempt_body cfg operation operationName attempt this rt =
     (let rt1 = console_log (''[SandboxTimeoutManager] Executing '' @ operationName
                  @ '' (attempt '' @ number_toString attempt @ ''/''
                  @ number_toString (maxRetries (options this)) @ '')'') rt;
          (this1, rt2) = updateLastActivity this rt1;
          (promise, rt3) = invoke operation rt2
      in case withTimeout promise (processTimeout (options this1)) of
           Inr result \<Rightarrow>
             (Return result, this1,
              console_log (''[SandboxTimeoutManager] '' @ operationName
                @ '' completed successfully'') rt3)
         | Inl error \<Rightarrow>
             (let rt4 = console_error (''[SandboxTimeoutManager] '' @ operationName
                          @ '' failed (attempt '' @ number_toString attempt @ ''):'') error rt3
              in case error of
                   OtherValue typeError \<Rightarrow> (Throw (Error typeError), this1, rt4)
                 | ErrorValue lastError \<Rightarrow>
                     (case extend_on_timeout cfg (isTimeoutError lastError) this1 rt4 of
                        (Throws thrown, this2, rt5) \<Rightarrow> (Throw thrown, this2, rt5)
                      | (NeverSettles, this2, rt5) \<Rightarrow> (Stall, this2, rt5)
                      | (Returns u, this2, rt5) \<Rightarrow>
                          if attempt = maxRetries (options this2) then
                            (Throw (Error (failure_message operationName
                               (maxRetries (options this2)) lastError)),
                             this2, rt5)
                          else
                            (Continue lastError, this2,
                             delay (retryDelay (options this2))
                               (console_log (''[SandboxTimeoutManager] Waiting ''
                                  @ number_toString (retryDelay (options this2))
                                  @ ''ms before retry...'') rt5)))))"

text \<open>
  The \<^verbatim>\<open>for\<close> loop of \<^verbatim>\<open>executeWithTimeout\<close>, from the test of its condition on,
  and the \<^verbatim>\<open>throw lastError!\<close> behind it. The loop ends because the attempt counter
  climbs towards \<open>maxRetries\<close>, which no step changes.
\<close>

function executeWithTimeout_loop ::
  "e2b_config \<Rightarrow> (nat \<Rightarrow> 'a settled) \<Rightarrow> string \<Rightarrow> int \<Rightarrow> js_error option
     \<Rightarrow> SandboxTimeoutManager \<Rightarrow> runtime
     \<Rightarrow> (js_error option, 'a) completion \<times> SandboxTimeoutManager \<times> runtime" where
  "executeWithTimeout_loop cfg operation operationName attempt lastError this rt =
     (if attempt \<le> maxRetries (options this) then
        (case attempt_body cfg operation operationName attempt this rt of
           (Return result, this', rt') \<Rightarrow> (Returns result, this', rt')
         | (Throw e, this', rt') \<Rightarrow> (Throws (Some e), this', rt')
         | (Stall, this', rt') \<Rightarrow> (NeverSettles, this', rt')
         | (Continue e, this', rt') \<Rightarrow>
             executeWithTimeout_loop cfg operation operationName (attempt + 1) (Some e) this' rt')
      else (Throws lastError, this, rt))"
  by pat_completeness auto
termination
proof (relation "measure (\<lambda>(cfg, operation, operationName, attempt, lastError, this, rt).
                   nat (maxRetries (options this) + 1 - attempt))", goal_cases)
  case 1
  show ?case by simp
next
  case (2 cfg operation operationName attempt lastError this rt x y e this' rt')
  then have body: "attempt_body cfg operation operationName attempt this rt
                     = (Continue e, this', rt')"
    by simp
  have "options this' = options this"
    using body
    by (auto simp: attempt_body_def extend_on_timeout_def extendSandboxTimeout_def
                   updateLastActivity_def Let_def
             split: if_splits prod.splits sum.splits option.splits js_value.splits
                    completion.splits renewal.splits)
  with 2 show ?case by auto
qed

definition executeWithTimeout ::
  "e2b_config \<Rightarrow> (nat \<Rightarrow> 'a settled) \<Rightarrow> string \<Rightarrow> SandboxTimeoutManager \<Rightarrow> runtime
     \<Rightarrow> (js_error option, 'a) completion \<times> SandboxTimeoutManager \<times> runtime" where
  "executeWithTimeout cfg operation operationName this rt =
     executeWithTimeout_loop cfg operation operationName 1 None this rt"

subsection \<open>Status and cleanup\<close>

record status =
  status_lastActivity :: int
  status_timeSinceLastActivity :: int
  status_isExtending :: bool
  status_autoExtendEnabled :: bool

definition getStatus :: "SandboxTimeoutManager \<Rightarrow> runtime \<Rightarrow> status \<times> runtime" where
  "getStatus this rt =
     (let (now, rt1) = Date_now rt
      in (\<lparr> status_lastActivity = lastActivity this,
            status_timeSinceLastActivity = now - lastActivity this,
            status_isExtending = isExtending this,
            status_autoExtendEnabled = (autoExtendTimer this \<noteq> None) \<rparr>, rt1))"

definition cleanup ::
  "SandboxTimeoutManager \<Rightarrow> runtime \<Rightarrow> SandboxTimeoutManager \<times> runtime" where
  "cleanup this rt =
     (case autoExtendTimer this of
        Some t \<Rightarrow> (this\<lparr>autoExtendTimer := None\<rparr>, clearInterval t rt)
      | None \<Rightarrow> (this, rt))"

subsection \<open>The auto-extend timer\<close>

text \<open>
  The body of the \<^verbatim>\<open>try\<close> block of the interval callback. With an undefined threshold
  the product is \<^verbatim>\<open>NaN\<close> and the comparison is false. For an integral threshold the
  double-precision product \<^verbatim>\<open>thresholdMs * 0.8\<close> is the integer \<open>48000 * t\<close> exactly,
  which the rational \<open>8 / 10\<close> gives as well.
\<close>

definition autoExtendTick_try ::
  "e2b_config \<Rightarrow> SandboxTimeoutManager \<Rightarrow> runtime
     \<Rightarrow> (js_value, unit) completion \<times> SandboxTimeoutManager \<times> runtime" where
  "autoExtendTick_try cfg this rt =
     (let (now, rt1) = Date_now rt;
          timeSinceLastActivity = now - lastActivity this
      in case autoExtendThreshold (options this) of
           None \<Rightarrow> (Returns (), this, rt1)
         | Some t \<Rightarrow>
             (let thresholdMs = t * 60 * 1000
              in if (of_int timeSinceLastActivity :: rat) > of_int thresholdMs * (8 / 10) then
                   extendSandboxTimeout cfg this
                     (console_log ''[SandboxTimeoutManager] Auto-extending sandbox timeout...''
                        rt1)
                 else (Returns (), this, rt1)))"

text \<open>The whole callback: the \<^verbatim>\<open>catch\<close> clause logs what the body threw.\<close>

definition autoExtendTick ::
  "e2b_config \<Rightarrow> SandboxTimeoutManager \<Rightarrow> runtime
     \<Rightarrow> (js_value, unit) completion \<times> SandboxTimeoutManager \<times> runtime" where
  "autoExtendTick cfg this rt =
     (case autoExtendTick_try cfg this rt of
        (Returns u, this', rt') \<Rightarrow> (Returns (), this', rt')
      | (Throws error, this', rt') \<Rightarrow>
          (Returns (), this',
           console_error ''[SandboxTimeoutManager] Auto-extend failed:'' error rt')
      | (NeverSettles, this', rt') \<Rightarrow> (NeverSettles, this', rt'))"

text \<open>
  \<^verbatim>\<open>startAutoExtendTimer\<close>. The threshold is truthy when it is defined and not zero.
  \<open>t * 60 * 1000\<close> is even, so the division by two is exact.
\<close>

definition startAutoExtendTimer ::
  "SandboxTimeoutManager \<Rightarrow> runtime \<Rightarrow> SandboxTimeoutManager \<times> runtime" where
  "startAutoExtendTimer this rt =
     (case autoExtendThreshold (options this) of
        None \<Rightarrow> (this, rt)
      | Some t \<Rightarrow>
          if t = 0 then (this, rt)
          else
            (let checkInterval = min (t * 60 * 1000 div 2) 60000;
                 (timer, rt1) = setInterval checkInterval rt
             in (this\<lparr>autoExtendTimer := Some timer\<rparr>,
                 console_log (''[SandboxTimeoutManager] Auto-extend timer started (checking every ''
                   @ number_toString checkInterval @ ''ms)'') rt1)))"

text \<open>The field initialisers and the constructor.\<close>

definition new_SandboxTimeoutManager ::
  "e2b_config \<Rightarrow> sandbox_handle \<Rightarrow> TimeoutManagerOptions \<Rightarrow> runtime
     \<Rightarrow> SandboxTimeoutManager \<times> runtime" where
  "new_SandboxTimeoutManager cfg sb opts rt =
     (let (now, rt1) = Date_now rt;
          this = \<lparr> sandbox = sb, options = merge_options cfg opts, lastActivity = now,
                   autoExtendTimer = None, isExtending = False \<rparr>
      in startAutoExtendTimer this rt1)"

subsection \<open>The global timeout manager\<close>

text \<open>
  Managers are objects: the module-level variable \<^verbatim>\<open>globalTimeoutManager\<close> holds a
  reference or \<^verbatim>\<open>null\<close>, and the object store maps a reference to the object's fields.
\<close>

record process_state =
  objects :: "nat \<Rightarrow> SandboxTimeoutManager option"
  globalTimeoutManager :: "nat option"
  process_runtime :: runtime

definition getGlobalTimeoutManager :: "process_state \<Rightarrow> nat option" where
  "getGlobalTimeoutManager g = globalTimeoutManager g"

text \<open>The \<^verbatim>\<open>if (globalTimeoutManager) { globalTimeoutManager.cleanup(); }\<close> statement.\<close>

definition cleanup_previous :: "process_state \<Rightarrow> process_state" where
  "cleanup_previous g =
     (case globalTimeoutManager g of
        None \<Rightarrow> g
      | Some r \<Rightarrow>
          (case objects g r of
             None \<Rightarrow> g
           | Some this \<Rightarrow>
               (let (this', rt') = cleanup this (process_runtime g)
                in g\<lparr>objects := (objects g)(r \<mapsto> this'), process_runtime := rt'\<rparr>)))"

definition setGlobalTimeoutManager :: "nat option \<Rightarrow> process_state \<Rightarrow> process_state" where
  "setGlobalTimeoutManager manager g = (cleanup_previous g)\<lparr>globalTimeoutManager := manager\<rparr>"

subsection \<open>The specification's reading of the error classification\<close>

text \<open>
  The specification's words: a message contains a keyword, case-insensitively, when
  some stretch of the message equals the keyword up to the case of its letters.
\<close>

definition contains_ignoring_case :: "string \<Rightarrow> string \<Rightarrow> bool" where
  "contains_ignoring_case msg kw =
     (\<exists>ps w ss. msg = ps @ w @ ss \<and> toLowerCase w = toLowerCase kw)"

subsection \<open>Inputs on which the retry loop keeps its bound\<close>

text \<open>
  An attempt that fails the way the source expects: the promise rejects with an
  \<^verbatim>\<open>Error\<close>, or the timer fires first.
\<close>

definition fails_with_error :: "'a settled \<Rightarrow> bool" where
  "fails_with_error p =
     (case p of
        Resolved v \<Rightarrow> False
      | Rejected (ErrorValue e) \<Rightarrow> True
      | Rejected (OtherValue typeError) \<Rightarrow> False
      | TimerFirst \<Rightarrow> True)"

text \<open>A sandbox whose \<^verbatim>\<open>setTimeout\<close>, where it has one, settles on every call.\<close>

definition renewals_settle :: "sandbox_handle \<Rightarrow> bool" where
  "renewals_settle sb =
     (case sandbox_setTimeout sb of
        None \<Rightarrow> True
      | Some f \<Rightarrow> (\<forall>k ms. f k ms \<noteq> RenewalPending))"

subsection \<open>Concrete inputs\<close>

text \<open>
  The values of \<^verbatim>\<open>docs/SANDBOX_TIMEOUT_MANAGEMENT.md\<close> for \<^verbatim>\<open>appConfig.e2b\<close>, four
  sandboxes (without \<^verbatim>\<open>setTimeout\<close>, with one that always rejects, with one that
  always resolves, with one that never settles), a runtime whose clock advances a second
  per reading, and a manager at rest. The properties are instantiated at them.
\<close>

definition documented_config :: e2b_config where
  "documented_config =
     \<lparr> cfg_timeoutMs = 45 * 60 * 1000, cfg_timeoutMinutes = 45, cfg_maxRetries = 3,
       cfg_retryDelay = 2000, cfg_processTimeout = 30000, cfg_connectionTimeout = 15000,
       cfg_autoExtendThreshold = Some 5 \<rparr>"

definition no_options :: TimeoutManagerOptions where
  "no_options =
     \<lparr> opt_maxRetries = None, opt_retryDelay = None, opt_processTimeout = None,
       opt_connectionTimeout = None, opt_autoExtendThreshold = None \<rparr>"

definition bare_sandbox :: sandbox_handle where
  "bare_sandbox = \<lparr> sandbox_setTimeout = None \<rparr>"

definition gone_sandbox :: sandbox_handle where
  "gone_sandbox =
     \<lparr> sandbox_setTimeout =
         Some (\<lambda>k ms. RenewalRejects (ErrorValue (Error ''sandbox gone''))) \<rparr>"

definition live_sandbox :: sandbox_handle where
  "live_sandbox = \<lparr> sandbox_setTimeout = Some (\<lambda>k ms. RenewalResolves) \<rparr>"

definition stalled_sandbox :: sandbox_handle where
  "stalled_sandbox = \<lparr> sandbox_setTimeout = Some (\<lambda>k ms. RenewalPending) \<rparr>"

definition fresh_runtime :: runtime where
  "fresh_runtime =
     \<lparr> clock = (\<lambda>k. 1000 * int k), clock_reads = 0, op_calls = 0, remote_calls = 0,
       extend_calls = 0, delays = [], intervals = [], next_timer = 0, console = [] \<rparr>"

definition idle_manager :: "sandbox_handle \<Rightarrow> TimeoutManagerOptions \<Rightarrow> SandboxTimeoutManager" where
  "idle_manager sb opts =
     \<lparr> sandbox = sb, options = merge_options documented_config opts, lastActivity = 0,
       autoExtendTimer = None, isExtending = False \<rparr>"

text \<open>
  A process whose global manager is the one the constructor builds, with its interval
  timer armed; and a runtime whose clock reads 265 seconds.
\<close>

definition armed_manager :: SandboxTimeoutManager where
  "armed_manager = fst (new_SandboxTimeoutManager documented_config live_sandbox no_options fresh_runtime)"

definition armed_process :: process_state where
  "armed_process =
     \<lparr> objects = (\<lambda>r. None)(0 \<mapsto> armed_manager, 1 \<mapsto> idle_manager bare_sandbox no_options),
       globalTimeoutManager = Some 0,
       process_runtime =
         snd (new_SandboxTimeoutManager documented_config live_sandbox no_options fresh_runtime) \<rparr>"

definition quiet_runtime :: runtime where
  "quiet_runtime = fresh_runtime\<lparr>clock := (\<lambda>k. 265000)\<rparr>"

text \<open>
  Operations: one that always rejects with a string (the text is that of the
  \<^verbatim>\<open>TypeError\<close> which the read of its message raises), one that does so once and would
  resolve afterwards, and one that always rejects with the \<^verbatim>\<open>Error\<close> of a bad gateway.
\<close>

definition rejects_boom :: "nat \<Rightarrow> nat settled" where
  "rejects_boom k =
     Rejected (OtherValue ''Cannot read properties of undefined (reading toLowerCase)'')"

definition boom_then_resolves :: "nat \<Rightarrow> nat settled" where
  "boom_then_resolves k =
     (if k = 0
      then Rejected (OtherValue ''Cannot read properties of undefined (reading toLowerCase)'')
      else Resolved 7)"

definition rejects_bad_gateway :: "nat \<Rightarrow> nat settled" where
  "rejects_bad_gateway k = Rejected (ErrorValue (Error ''Error: 502 Bad Gateway''))"

lemmas demo_defs = documented_config_def no_options_def bare_sandbox_def gone_sandbox_def
  live_sandbox_def stalled_sandbox_def fresh_runtime_def idle_manager_def merge_options_def

section \<open>Properties\<close>

subsection \<open>Strings\<close>

lemma str_includes_iff: "str_includes s kw \<longleftrightarrow> (\<exists>ps ss. s = ps @ kw @ ss)"
proof (induction s)
  case Nil
  then show ?case by auto
next
  case (Cons c cs)
  have "(\<exists>ps ss. c # cs = ps @ kw @ ss) \<longleftrightarrow> sublist kw (c # cs)"
    by (simp add: sublist_def)
  also have "\<dots> \<longleftrightarrow> prefix kw (c # cs) \<or> sublist kw cs"
    by (rule sublist_Cons_right)
  also have "\<dots> \<longleftrightarrow> prefix kw (c # cs) \<or> str_includes cs kw"
    using Cons.IH by (simp add: sublist_def)
  finally show ?case by simp
qed

lemma lowered_includes_iff:
  "str_includes (toLowerCase msg) kw \<longleftrightarrow> (\<exists>ps w ss. msg = ps @ w @ ss \<and> toLowerCase w = kw)"
proof
  assume "str_includes (toLowerCase msg) kw"
  then obtain ps' ss' where "map toLowerCase_char msg = ps' @ kw @ ss'"
    by (auto simp: str_includes_iff toLowerCase_def)
  then have "\<exists>us vs. msg = us @ vs \<and> ps' = map toLowerCase_char us
                 \<and> kw @ ss' = map toLowerCase_char vs"
    by (simp only: map_eq_append_conv)
  then obtain ps rest where 1: "msg = ps @ rest" and 2: "kw @ ss' = map toLowerCase_char rest"
    by blast
  from 2 have "\<exists>us vs. rest = us @ vs \<and> kw = map toLowerCase_char us
                 \<and> ss' = map toLowerCase_char vs"
    by (simp only: append_eq_map_conv)
  then obtain w ss where "rest = w @ ss" and "map toLowerCase_char w = kw"
    by blast
  with 1 show "\<exists>ps w ss. msg = ps @ w @ ss \<and> toLowerCase w = kw"
    by (auto simp: toLowerCase_def)
next
  assume "\<exists>ps w ss. msg = ps @ w @ ss \<and> toLowerCase w = kw"
  then obtain ps w ss where "msg = ps @ w @ ss" and "toLowerCase w = kw"
    by blast
  then have "toLowerCase msg = toLowerCase ps @ kw @ toLowerCase ss"
    by (simp add: toLowerCase_def)
  then show "str_includes (toLowerCase msg) kw"
    unfolding str_includes_iff by blast
qed

lemma keywords_lower:
  "toLowerCase ''timeout'' = ''timeout''" "toLowerCase ''502'' = ''502''"
  "toLowerCase ''not found'' = ''not found''" "toLowerCase ''expired'' = ''expired''"
  "toLowerCase ''terminated'' = ''terminated''"
  by code_simp+

subsection \<open>Error classification\<close>

text \<open>
  C3. \<open>isTimeoutError\<close> is true exactly for the errors whose message contains,
  case-insensitively, one of the substrings \<open>timeout\<close>, \<open>502\<close>, \<open>not found\<close>,
  \<open>expired\<close> or \<open>terminated\<close>; it is false for every message that contains none of
  them.
\<close>

theorem isTimeoutError_iff:
  "isTimeoutError e \<longleftrightarrow>
     (\<exists>kw \<in> {''timeout'', ''502'', ''not found'', ''expired'', ''terminated''}.
        contains_ignoring_case (message e) kw)"
proof -
  have "isTimeoutError e \<longleftrightarrow>
          (\<exists>kw \<in> {''timeout'', ''502'', ''not found'', ''expired'', ''terminated''}.
             \<exists>ps w ss. message e = ps @ w @ ss \<and> toLowerCase w = kw)"
    by (simp add: isTimeoutError_def timeoutKeywords_def list_ex_iff lowered_includes_iff
          del: str_includes.simps)
  then show ?thesis
    by (simp add: contains_ignoring_case_def keywords_lower)
qed

text \<open>
  Two messages that are classified as timeouts, and the unrelated message
  \<open>invalid syntax\<close>, which is not.
\<close>

theorem isTimeoutError_iff_witness:
  "(\<exists>kw \<in> {''timeout'', ''502'', ''not found'', ''expired'', ''terminated''}.
        contains_ignoring_case ''Error: 502 Bad Gateway'' kw)
   \<and> (\<exists>kw \<in> {''timeout'', ''502'', ''not found'', ''expired'', ''terminated''}.
        contains_ignoring_case ''Sandbox Was TERMINATED'' kw)
   \<and> \<not> (\<exists>kw \<in> {''timeout'', ''502'', ''not found'', ''expired'', ''terminated''}.
        contains_ignoring_case ''invalid syntax'' kw)"
proof -
  have a: "isTimeoutError (Error ''Error: 502 Bad Gateway'')" by code_simp
  have b: "isTimeoutError (Error ''Sandbox Was TERMINATED'')" by code_simp
  have c: "\<not> isTimeoutError (Error ''invalid syntax'')" by code_simp
  show ?thesis
    using a b c isTimeoutError_iff [of "Error ''Error: 502 Bad Gateway''"]
      isTimeoutError_iff [of "Error ''Sandbox Was TERMINATED''"]
      isTimeoutError_iff [of "Error ''invalid syntax''"]
    by (simp only: js_error.sel) blast
qed

subsection \<open>Cleanup\<close>

text \<open>
  C10. \<open>cleanup\<close> changes only the timer field of the manager: the timer handle is
  cleared, so that \<open>getStatus\<close> reports \<open>autoExtendEnabled = false\<close>, while
  \<open>lastActivity\<close> and \<open>isExtending\<close> keep the values they had before the call. In the
  runtime only the table of armed intervals may change.
\<close>

theorem cleanup_frame:
  "fst (cleanup this rt) = this\<lparr>autoExtendTimer := None\<rparr>
   \<and> lastActivity (fst (cleanup this rt)) = lastActivity this
   \<and> isExtending (fst (cleanup this rt)) = isExtending this
   \<and> (snd (cleanup this rt))\<lparr>intervals := intervals rt\<rparr> = rt
   \<and> fst (getStatus (fst (cleanup this rt)) rt') =
       (fst (getStatus this rt'))\<lparr>status_autoExtendEnabled := False\<rparr>
   \<and> status_autoExtendEnabled (fst (getStatus (fst (cleanup this rt)) rt')) = False"
  by (cases "autoExtendTimer this")
     (simp_all add: cleanup_def getStatus_def Date_now_def clearInterval_def)

subsection \<open>Frame of the renewal and of one attempt\<close>

declare executeWithTimeout_loop.simps [simp del]

lemma extendSandboxTimeout_keeps:
  "options (fst (snd (extendSandboxTimeout cfg this rt))) = options this"
  "sandbox (fst (snd (extendSandboxTimeout cfg this rt))) = sandbox this"
  "autoExtendTimer (fst (snd (extendSandboxTimeout cfg this rt))) = autoExtendTimer this"
  "op_calls (snd (snd (extendSandboxTimeout cfg this rt))) = op_calls rt"
  "extend_calls (snd (snd (extendSandboxTimeout cfg this rt))) = Suc (extend_calls rt)"
  "intervals (snd (snd (extendSandboxTimeout cfg this rt))) = intervals rt"
  "delays (snd (snd (extendSandboxTimeout cfg this rt))) = delays rt"
  by (simp_all add: extendSandboxTimeout_def updateLastActivity_def Date_now_def
        console_log_def console_warn_def Let_def split: option.splits renewal.splits)

lemma extendSandboxTimeout_isExtending:
  assumes "fst (extendSandboxTimeout cfg this rt) \<noteq> NeverSettles"
  shows "isExtending (fst (snd (extendSandboxTimeout cfg this rt))) = isExtending this"
proof (cases "isExtending this")
  case True
  then show ?thesis
    by (simp add: extendSandboxTimeout_def Let_def)
next
  case False
  show ?thesis
  proof (cases "sandbox_setTimeout (sandbox this)")
    case None
    with False show ?thesis
      by (simp add: extendSandboxTimeout_def Let_def)
  next
    case (Some f)
    with False assms show ?thesis
      by (cases "f (remote_calls rt) (cfg_timeoutMs cfg)")
         (simp_all add: extendSandboxTimeout_def updateLastActivity_def Date_now_def Let_def)
  qed
qed

lemma extendSandboxTimeout_settles:
  "renewals_settle (sandbox this) \<Longrightarrow> fst (extendSandboxTimeout cfg this rt) \<noteq> NeverSettles"
  by (auto simp: extendSandboxTimeout_def renewals_settle_def updateLastActivity_def
        Date_now_def Let_def split: option.splits renewal.splits)

lemma extend_on_timeout_keeps:
  "options (fst (snd (extend_on_timeout cfg timeoutLike this rt))) = options this"
  "sandbox (fst (snd (extend_on_timeout cfg timeoutLike this rt))) = sandbox this"
  "op_calls (snd (snd (extend_on_timeout cfg timeoutLike this rt))) = op_calls rt"
  "extend_calls (snd (snd (extend_on_timeout cfg timeoutLike this rt)))
     = (if timeoutLike then Suc (extend_calls rt) else extend_calls rt)"
  "delays (snd (snd (extend_on_timeout cfg timeoutLike this rt))) = delays rt"
  using extendSandboxTimeout_keeps [of cfg this
          "console_log ''[SandboxTimeoutManager] Timeout detected, attempting to extend sandbox...'' rt"]
  by (auto simp: extend_on_timeout_def console_log_def console_error_def
           split: prod.splits completion.splits)

lemma extend_on_timeout_settles:
  assumes "renewals_settle (sandbox this)"
  shows "fst (extend_on_timeout cfg timeoutLike this rt) = Returns ()"
  using extendSandboxTimeout_settles [OF assms, of cfg
          "console_log ''[SandboxTimeoutManager] Timeout detected, attempting to extend sandbox...'' rt"]
  by (auto simp: extend_on_timeout_def split: prod.splits completion.splits)


lemma attempt_body_fst:
  assumes "renewals_settle (sandbox this)"
  shows "fst (attempt_body cfg operation operationName attempt this rt) =
     (case withTimeout (operation (op_calls rt)) (processTimeout (options this)) of
        Inr v \<Rightarrow> Return v
      | Inl (OtherValue typeError) \<Rightarrow> Throw (Error typeError)
      | Inl (ErrorValue e) \<Rightarrow>
          if attempt = maxRetries (options this)
          then Throw (Error (failure_message operationName (maxRetries (options this)) e))
          else Continue e)"
proof -
  have s: "fst (extend_on_timeout cfg b (this\<lparr>lastActivity := l\<rparr>) r) = Returns ()" for b l r
    using assms by (intro extend_on_timeout_settles) simp
  show ?thesis
    by (simp add: attempt_body_def updateLastActivity_def invoke_def Date_now_def
          console_log_def console_error_def delay_def Let_def case_prod_beta
          extend_on_timeout_keeps s split: sum.splits js_value.splits)
qed

lemma attempt_body_keeps:
  "options (fst (snd (attempt_body cfg operation operationName attempt this rt))) = options this"
  "sandbox (fst (snd (attempt_body cfg operation operationName attempt this rt))) = sandbox this"
  "op_calls (snd (snd (attempt_body cfg operation operationName attempt this rt)))
     = Suc (op_calls rt)"
  by (simp_all add: attempt_body_def updateLastActivity_def invoke_def Date_now_def
        console_log_def console_error_def delay_def Let_def case_prod_beta
        extend_on_timeout_keeps split: sum.splits js_value.splits completion.splits)



text \<open>One turn of the loop, by the way the attempt ends.\<close>

lemma loop_exit:
  "\<not> attempt \<le> maxRetries (options this) \<Longrightarrow>
     executeWithTimeout_loop cfg operation operationName attempt lastError this rt
       = (Throws lastError, this, rt)"
  by (simp add: executeWithTimeout_loop.simps)

lemma loop_Return:
  assumes "attempt \<le> maxRetries (options this)"
    and "fst (attempt_body cfg operation operationName attempt this rt) = Return v"
  shows "executeWithTimeout_loop cfg operation operationName attempt lastError this rt
           = (Returns v, snd (attempt_body cfg operation operationName attempt this rt))"
  using assms
  by (cases "attempt_body cfg operation operationName attempt this rt")
     (simp add: executeWithTimeout_loop.simps)

lemma loop_Throw:
  assumes "attempt \<le> maxRetries (options this)"
    and "fst (attempt_body cfg operation operationName attempt this rt) = Throw e"
  shows "executeWithTimeout_loop cfg operation operationName attempt lastError this rt
           = (Throws (Some e), snd (attempt_body cfg operation operationName attempt this rt))"
  using assms
  by (cases "attempt_body cfg operation operationName attempt this rt")
     (simp add: executeWithTimeout_loop.simps)

lemma loop_Stall:
  assumes "attempt \<le> maxRetries (options this)"
    and "fst (attempt_body cfg operation operationName attempt this rt) = Stall"
  shows "executeWithTimeout_loop cfg operation operationName attempt lastError this rt
           = (NeverSettles, snd (attempt_body cfg operation operationName attempt this rt))"
  using assms
  by (cases "attempt_body cfg operation operationName attempt this rt")
     (simp add: executeWithTimeout_loop.simps)

lemma loop_Continue:
  assumes "attempt \<le> maxRetries (options this)"
    and "fst (attempt_body cfg operation operationName attempt this rt) = Continue e"
  shows "executeWithTimeout_loop cfg operation operationName attempt lastError this rt
           = executeWithTimeout_loop cfg operation operationName (attempt + 1) (Some e)
               (fst (snd (attempt_body cfg operation operationName attempt this rt)))
               (snd (snd (attempt_body cfg operation operationName attempt this rt)))"
  using assms
  by (cases "attempt_body cfg operation operationName attempt this rt")
     (simp add: executeWithTimeout_loop.simps)

subsection \<open>The retry loop\<close>

lemma withTimeout_fails:
  "fails_with_error p \<Longrightarrow> \<exists>e. withTimeout p t = Inl (ErrorValue e)"
  by (auto simp: fails_with_error_def withTimeout_def split: settled.splits js_value.splits)

lemma withTimeout_Resolved: "withTimeout (Resolved v) t = Inr v"
  by (simp add: withTimeout_def)

text \<open>
  Every attempt that is left fails with an \<^verbatim>\<open>Error\<close> and every renewal settles: the loop
  runs all the attempts and throws.
\<close>

lemma loop_all_fail:
  assumes "\<forall>j\<le>n. fails_with_error (operation (op_calls rt + j))"
    and "renewals_settle (sandbox this)"
    and "attempt + int n = maxRetries (options this)"
  shows "\<exists>e this' rt'.
           executeWithTimeout_loop cfg operation operationName attempt lastError this rt
             = (Throws (Some (Error (failure_message operationName (maxRetries (options this))
                  e))), this', rt')
           \<and> withTimeout (operation (op_calls rt + n)) (processTimeout (options this))
               = Inl (ErrorValue e)
           \<and> op_calls rt' = op_calls rt + Suc n"
  using assms
proof (induction n arbitrary: attempt lastError this rt)
  case 0
  let ?b = "attempt_body cfg operation operationName attempt this rt"
  from 0 obtain e
    where e: "withTimeout (operation (op_calls rt)) (processTimeout (options this))
                = Inl (ErrorValue e)"
    using withTimeout_fails [of "operation (op_calls rt)"] by auto
  from 0 have last: "attempt = maxRetries (options this)" by simp
  have "fst ?b = Throw (Error (failure_message operationName (maxRetries (options this)) e))"
    using attempt_body_fst [OF "0.prems"(2), of cfg operation operationName attempt rt] e last
    by simp
  from loop_Throw [OF _ this, of lastError] last e show ?case
    by (cases "snd ?b") (use attempt_body_keeps(3) [of cfg operation operationName attempt this rt] in auto)
next
  case (Suc n)
  let ?b = "attempt_body cfg operation operationName attempt this rt"
  from Suc.prems(1) obtain e
    where e: "withTimeout (operation (op_calls rt)) (processTimeout (options this))
                = Inl (ErrorValue e)"
    using withTimeout_fails [of "operation (op_calls rt)"] by force
  from Suc.prems(3) have lt: "attempt < maxRetries (options this)" by simp
  have "fst ?b = Continue e"
    using attempt_body_fst [OF Suc.prems(2), of cfg operation operationName attempt rt] e lt
    by simp
  with lt
  have step: "executeWithTimeout_loop cfg operation operationName attempt lastError this rt
                = executeWithTimeout_loop cfg operation operationName (attempt + 1) (Some e)
                    (fst (snd ?b)) (snd (snd ?b))"
    by (intro loop_Continue) simp_all
  have opts: "options (fst (snd ?b)) = options this"
    and sbx: "sandbox (fst (snd ?b)) = sandbox this"
    and calls: "op_calls (snd (snd ?b)) = Suc (op_calls rt)"
    by (simp_all add: attempt_body_keeps)
  have a: "\<forall>j\<le>n. fails_with_error (operation (op_calls (snd (snd ?b)) + j))"
  proof (intro allI impI)
    fix j
    assume "j \<le> n"
    then have "Suc j \<le> Suc n" by simp
    with Suc.prems(1) have "fails_with_error (operation (op_calls rt + Suc j))" by blast
    then show "fails_with_error (operation (op_calls (snd (snd ?b)) + j))"
      by (simp add: calls)
  qed
  have s: "renewals_settle (sandbox (fst (snd ?b)))"
    using Suc.prems(2) by (simp add: sbx)
  have b: "attempt + 1 + int n = maxRetries (options (fst (snd ?b)))"
    using Suc.prems(3) by (simp add: opts)
  from Suc.IH [OF a s b, of "Some e"] show ?case
    by (simp add: step opts calls)
qed

text \<open>The first \<open>n\<close> attempts fail so and the next one succeeds, within the bound.\<close>

lemma loop_first_success:
  assumes "\<forall>j<n. fails_with_error (operation (op_calls rt + j))"
    and "operation (op_calls rt + n) = Resolved v"
    and "renewals_settle (sandbox this)"
    and "attempt + int n \<le> maxRetries (options this)"
  shows "\<exists>this' rt'.
           executeWithTimeout_loop cfg operation operationName attempt lastError this rt
             = (Returns v, this', rt')
           \<and> op_calls rt' = op_calls rt + Suc n"
  using assms
proof (induction n arbitrary: attempt lastError this rt)
  case 0
  let ?b = "attempt_body cfg operation operationName attempt this rt"
  from 0 have le: "attempt \<le> maxRetries (options this)"
    and r: "withTimeout (operation (op_calls rt)) (processTimeout (options this)) = Inr v"
    by (simp_all add: withTimeout_Resolved)
  have "fst ?b = Return v"
    using attempt_body_fst [OF "0.prems"(3), of cfg operation operationName attempt rt] r
    by simp
  from loop_Return [OF le this, of lastError] show ?case
    by (cases "snd ?b") (use attempt_body_keeps(3) [of cfg operation operationName attempt this rt] in auto)
next
  case (Suc n)
  let ?b = "attempt_body cfg operation operationName attempt this rt"
  from Suc.prems(1) obtain e
    where e: "withTimeout (operation (op_calls rt)) (processTimeout (options this))
                = Inl (ErrorValue e)"
    using withTimeout_fails [of "operation (op_calls rt)"] by force
  from Suc.prems(4) have lt: "attempt < maxRetries (options this)" by simp
  have "fst ?b = Continue e"
    using attempt_body_fst [OF Suc.prems(3), of cfg operation operationName attempt rt] e lt
    by simp
  with lt
  have step: "executeWithTimeout_loop cfg operation operationName attempt lastError this rt
                = executeWithTimeout_loop cfg operation operationName (attempt + 1) (Some e)
                    (fst (snd ?b)) (snd (snd ?b))"
    by (intro loop_Continue) simp_all
  have opts: "options (fst (snd ?b)) = options this"
    and sbx: "sandbox (fst (snd ?b)) = sandbox this"
    and calls: "op_calls (snd (snd ?b)) = Suc (op_calls rt)"
    by (simp_all add: attempt_body_keeps)
  have a: "\<forall>j<n. fails_with_error (operation (op_calls (snd (snd ?b)) + j))"
  proof (intro allI impI)
    fix j
    assume "j < n"
    then have "Suc j < Suc n" by simp
    with Suc.prems(1) have "fails_with_error (operation (op_calls rt + Suc j))" by blast
    then show "fails_with_error (operation (op_calls (snd (snd ?b)) + j))"
      by (simp add: calls)
  qed
  have b: "operation (op_calls (snd (snd ?b)) + n) = Resolved v"
    using Suc.prems(2) by (simp add: calls)
  have s: "renewals_settle (sandbox (fst (snd ?b)))"
    using Suc.prems(3) by (simp add: sbx)
  have c: "attempt + 1 + int n \<le> maxRetries (options (fst (snd ?b)))"
    using Suc.prems(4) by (simp add: opts)
  from Suc.IH [OF a b s c, of "Some e"] show ?case
    by (simp add: step calls)
qed

text \<open>A first attempt that leaves the loop at once.\<close>

lemma first_attempt_not_an_error:
  assumes "1 \<le> maxRetries (options this)"
    and "operation (op_calls rt) = Rejected (OtherValue typeError)"
  shows "fst (executeWithTimeout cfg operation operationName this rt)
           = Throws (Some (Error typeError))"
    and "op_calls (snd (snd (executeWithTimeout cfg operation operationName this rt)))
           = Suc (op_calls rt)"
proof -
  let ?b = "attempt_body cfg operation operationName 1 this rt"
  have "fst ?b = Throw (Error typeError)"
    using assms(2)
    by (simp add: attempt_body_def updateLastActivity_def invoke_def Date_now_def
          console_log_def console_error_def withTimeout_def Let_def)
  from loop_Throw [OF assms(1) this, of None]
  show "fst (executeWithTimeout cfg operation operationName this rt)
          = Throws (Some (Error typeError))"
    and "op_calls (snd (snd (executeWithTimeout cfg operation operationName this rt)))
          = Suc (op_calls rt)"
    by (simp_all add: executeWithTimeout_def attempt_body_keeps)
qed

lemma first_attempt_stalls:
  assumes "1 \<le> maxRetries (options this)"
    and "operation (op_calls rt) = Rejected (ErrorValue e)" and "isTimeoutError e"
    and "\<not> isExtending this" and "sandbox_setTimeout (sandbox this) = Some f"
    and "f (remote_calls rt) (cfg_timeoutMs cfg) = RenewalPending"
  shows "fst (executeWithTimeout cfg operation operationName this rt) = NeverSettles"
    and "op_calls (snd (snd (executeWithTimeout cfg operation operationName this rt)))
           = Suc (op_calls rt)"
proof -
  let ?b = "attempt_body cfg operation operationName 1 this rt"
  have "fst ?b = Stall"
    using assms(2-6)
    by (simp add: attempt_body_def extend_on_timeout_def extendSandboxTimeout_def
          updateLastActivity_def invoke_def Date_now_def
          console_log_def console_error_def withTimeout_def Let_def)
  from loop_Stall [OF assms(1) this, of None]
  show "fst (executeWithTimeout cfg operation operationName this rt) = NeverSettles"
    and "op_calls (snd (snd (executeWithTimeout cfg operation operationName this rt)))
          = Suc (op_calls rt)"
    by (simp_all add: executeWithTimeout_def attempt_body_keeps)
qed

lemma bad_gateway_timeout: "isTimeoutError (Error ''Error: 502 Bad Gateway'')"
  by code_simp

subsection \<open>Retry bound and early success\<close>

text \<open>
  C1, as amended. For an operation that fails on every invocation with an \<^verbatim>\<open>Error\<close>
  (or because the timer fires first), and a sandbox whose renewals settle,
  \<open>executeWithTimeout\<close> invokes the operation exactly \<open>maxRetries\<close> times and then
  fails. \<open>maxRetries\<close> is a count, so it is not negative.
\<close>

theorem executeWithTimeout_retry_bound:
  assumes "\<forall>k. fails_with_error (operation k)"
    and "renewals_settle (sandbox this)"
    and "0 \<le> maxRetries (options this)"
  shows "op_calls (snd (snd (executeWithTimeout cfg operation operationName this rt)))
           = op_calls rt + nat (maxRetries (options this))
         \<and> (\<exists>e. fst (executeWithTimeout cfg operation operationName this rt) = Throws e)"
proof (cases "maxRetries (options this) = 0")
  case True
  then show ?thesis
    by (simp add: executeWithTimeout_def loop_exit)
next
  case False
  define n where "n = nat (maxRetries (options this) - 1)"
  with False assms(3) have bound: "1 + int n = maxRetries (options this)"
    by simp
  have "\<forall>j\<le>n. fails_with_error (operation (op_calls rt + j))"
    using assms(1) by simp
  from loop_all_fail [OF this assms(2) bound, of cfg operationName None] bound
  show ?thesis
    by (auto simp: executeWithTimeout_def)
qed

theorem executeWithTimeout_retry_bound_witness:
  "op_calls (snd (snd (executeWithTimeout documented_config rejects_bad_gateway ''ping''
      (idle_manager gone_sandbox no_options) fresh_runtime))) = 3
   \<and> (\<exists>e. fst (executeWithTimeout documented_config rejects_bad_gateway ''ping''
      (idle_manager gone_sandbox no_options) fresh_runtime) = Throws e)"
  using executeWithTimeout_retry_bound [where this = "idle_manager gone_sandbox no_options"
          and operation = rejects_bad_gateway
          and cfg = documented_config and operationName = "''ping''" and rt = fresh_runtime]
  by (simp add: demo_defs rejects_bad_gateway_def fails_with_error_def renewals_settle_def)

text \<open>
  The claim as it is worded fails on two inputs. An operation that always rejects with a
  value that is not an \<^verbatim>\<open>Error\<close> is invoked once, with \<open>maxRetries = 3\<close>: the test in
  the \<^verbatim>\<open>catch\<close> clause throws the \<^verbatim>\<open>TypeError\<close>. And an operation that always rejects
  with a timeout-like \<^verbatim>\<open>Error\<close> is invoked once when the renewal it triggers never
  settles: the call then never settles either.
\<close>

theorem executeWithTimeout_retry_bound_counterexample:
  "maxRetries (options (idle_manager bare_sandbox no_options)) = 3
   \<and> rejects_boom 0 \<noteq> Resolved 0
   \<and> op_calls (snd (snd (executeWithTimeout documented_config rejects_boom ''ping''
        (idle_manager bare_sandbox no_options) fresh_runtime))) = 1
   \<and> fst (executeWithTimeout documented_config rejects_boom ''ping''
        (idle_manager bare_sandbox no_options) fresh_runtime)
       = Throws (Some (Error ''Cannot read properties of undefined (reading toLowerCase)''))
   \<and> maxRetries (options (idle_manager stalled_sandbox no_options)) = 3
   \<and> op_calls (snd (snd (executeWithTimeout documented_config rejects_bad_gateway ''ping''
        (idle_manager stalled_sandbox no_options) fresh_runtime))) = 1
   \<and> fst (executeWithTimeout documented_config rejects_bad_gateway ''ping''
        (idle_manager stalled_sandbox no_options) fresh_runtime) = NeverSettles"
proof -
  have m: "maxRetries (options (idle_manager sb no_options)) = 3" for sb
    by (simp add: demo_defs)
  have boom: "rejects_boom (op_calls fresh_runtime)
                = Rejected (OtherValue
                    ''Cannot read properties of undefined (reading toLowerCase)'')"
    by (simp add: rejects_boom_def)
  have gw: "rejects_bad_gateway (op_calls fresh_runtime)
              = Rejected (ErrorValue (Error ''Error: 502 Bad Gateway''))"
    by (simp add: rejects_bad_gateway_def)
  have st: "\<not> isExtending (idle_manager stalled_sandbox no_options)"
    "sandbox_setTimeout (sandbox (idle_manager stalled_sandbox no_options))
       = Some (\<lambda>k ms. RenewalPending)"
    by (simp_all add: idle_manager_def stalled_sandbox_def)
  note a = first_attempt_not_an_error [where this = "idle_manager bare_sandbox no_options"
      and cfg = documented_config and operationName = "''ping''"
      and operation = rejects_boom and rt = fresh_runtime, OF _ boom]
  note b = first_attempt_stalls [where this = "idle_manager stalled_sandbox no_options"
      and cfg = documented_config and operationName = "''ping''"
      and operation = rejects_bad_gateway and rt = fresh_runtime
      and f = "\<lambda>k ms. RenewalPending",
      OF _ gw bad_gateway_timeout st refl]
  show ?thesis
    using a b by (simp add: m rejects_boom_def) (simp add: fresh_runtime_def)
qed

text \<open>
  C2, as amended. For an operation that fails with an \<^verbatim>\<open>Error\<close> (or by the timer) on
  its next \<open>N\<close> invocations and succeeds on the one after them, with \<open>N < maxRetries\<close>,
  and a sandbox whose renewals settle, \<open>executeWithTimeout\<close> invokes the operation
  exactly \<open>N + 1\<close> times and resolves with the successful result: nothing is attempted
  after the first success.
\<close>

theorem executeWithTimeout_early_success:
  assumes "\<forall>k<N. fails_with_error (operation (op_calls rt + k))"
    and "operation (op_calls rt + N) = Resolved v"
    and "int N < maxRetries (options this)"
    and "renewals_settle (sandbox this)"
  shows "fst (executeWithTimeout cfg operation operationName this rt) = Returns v
         \<and> op_calls (snd (snd (executeWithTimeout cfg operation operationName this rt)))
             = op_calls rt + N + 1"
proof -
  from assms(3) have "1 + int N \<le> maxRetries (options this)" by simp
  from loop_first_success [OF assms(1,2,4) this, of cfg operationName None]
  show ?thesis
    by (auto simp: executeWithTimeout_def)
qed

theorem executeWithTimeout_early_success_witness:
  "fst (executeWithTimeout documented_config
      (\<lambda>k. if k < 2 then Rejected (ErrorValue (Error ''boom'')) else Resolved (7 :: nat))
      ''ping'' (idle_manager bare_sandbox no_options) fresh_runtime) = Returns 7
   \<and> op_calls (snd (snd (executeWithTimeout documented_config
      (\<lambda>k. if k < 2 then Rejected (ErrorValue (Error ''boom'')) else Resolved (7 :: nat))
      ''ping'' (idle_manager bare_sandbox no_options) fresh_runtime))) = 3"
  using executeWithTimeout_early_success [where N = 2 and rt = fresh_runtime
          and operation = "\<lambda>k. if k < 2 then Rejected (ErrorValue (Error ''boom''))
                             else Resolved (7 :: nat)"
          and v = 7 and this = "idle_manager bare_sandbox no_options" and cfg = documented_config
          and operationName = "''ping''"]
  by (simp add: demo_defs fails_with_error_def renewals_settle_def)

text \<open>
  The claim as it is worded fails for \<open>N = 1\<close>: an operation whose first promise rejects
  with a value that is not an \<^verbatim>\<open>Error\<close>, and whose second call would resolve, is
  invoked once, and the call rejects with the \<^verbatim>\<open>TypeError\<close>.
\<close>

theorem executeWithTimeout_early_success_counterexample:
  "maxRetries (options (idle_manager bare_sandbox no_options)) = 3
   \<and> boom_then_resolves 0 \<noteq> Resolved 7
   \<and> boom_then_resolves 1 = Resolved 7
   \<and> op_calls (snd (snd (executeWithTimeout documented_config boom_then_resolves ''ping''
        (idle_manager bare_sandbox no_options) fresh_runtime))) = 1
   \<and> fst (executeWithTimeout documented_config boom_then_resolves ''ping''
        (idle_manager bare_sandbox no_options) fresh_runtime)
       = Throws (Some (Error ''Cannot read properties of undefined (reading toLowerCase)''))"
proof -
  have m: "maxRetries (options (idle_manager bare_sandbox no_options)) = 3"
    by (simp add: demo_defs)
  have boom: "boom_then_resolves (op_calls fresh_runtime)
                = Rejected (OtherValue
                    ''Cannot read properties of undefined (reading toLowerCase)'')"
    by (simp add: boom_then_resolves_def fresh_runtime_def)
  note a = first_attempt_not_an_error [where this = "idle_manager bare_sandbox no_options"
      and cfg = documented_config and operationName = "''ping''"
      and operation = boom_then_resolves and rt = fresh_runtime, OF _ boom]
  show ?thesis
    using a by (simp add: m boom_then_resolves_def) (simp add: fresh_runtime_def)
qed

text \<open>
  C8. With \<open>maxRetries = 0\<close>, \<open>executeWithTimeout\<close> fails without calling the
  operation: the loop body never runs, the call rejects with the initial \<open>lastError\<close>,
  and neither the manager nor the runtime changes.
\<close>

theorem executeWithTimeout_zero_retries:
  assumes "maxRetries (options this) = 0"
  shows "executeWithTimeout cfg operation operationName this rt = (Throws None, this, rt)
         \<and> op_calls (snd (snd (executeWithTimeout cfg operation operationName this rt)))
             = op_calls rt
         \<and> (\<forall>v. fst (executeWithTimeout cfg operation operationName this rt) \<noteq> Returns v)"
  using assms by (simp add: executeWithTimeout_def loop_exit)

theorem executeWithTimeout_zero_retries_witness:
  "executeWithTimeout documented_config (\<lambda>k. Resolved (7 :: nat)) ''ping''
     (idle_manager bare_sandbox (no_options\<lparr>opt_maxRetries := Some 0\<rparr>))
     fresh_runtime
   = (Throws None,
      idle_manager bare_sandbox (no_options\<lparr>opt_maxRetries := Some 0\<rparr>),
      fresh_runtime)"
  using executeWithTimeout_zero_retries [where cfg = documented_config
          and this = "idle_manager bare_sandbox (no_options\<lparr>opt_maxRetries := Some 0\<rparr>)"
          and operation = "\<lambda>k. Resolved (7 :: nat)" and operationName = "''ping''"
          and rt = fresh_runtime]
  by (simp add: demo_defs)

subsection \<open>The renewal guard\<close>

text \<open>
  C4. \<open>extendSandboxTimeout\<close> called while \<open>isExtending\<close> is set returns at once: the
  remote \<open>setTimeout\<close> is not invoked and the manager is unchanged (the runtime gains the
  diagnostic line and the count of the call). A call that does proceed leaves
  \<open>isExtending\<close> cleared on exit, also when the remote call rejects and the error goes on
  to the caller. The one call without an exit is the one whose remote call never settles.
\<close>

theorem extendSandboxTimeout_guard:
  "(isExtending this \<longrightarrow>
      extendSandboxTimeout cfg this rt =
        (Returns (), this,
         rt\<lparr>extend_calls := Suc (extend_calls rt),
            console := console rt
              @ [ConsoleLog ''[SandboxTimeoutManager] Already extending timeout, skipping...'']\<rparr>)
      \<and> remote_calls (snd (snd (extendSandboxTimeout cfg this rt))) = remote_calls rt)
   \<and> (\<not> isExtending this \<and> fst (extendSandboxTimeout cfg this rt) \<noteq> NeverSettles \<longrightarrow>
        \<not> isExtending (fst (snd (extendSandboxTimeout cfg this rt))))
   \<and> (\<not> isExtending this \<and> sandbox_setTimeout (sandbox this) = Some f
        \<and> f (remote_calls rt) (cfg_timeoutMs cfg) = RenewalRejects e \<longrightarrow>
        fst (extendSandboxTimeout cfg this rt) = Throws e
        \<and> remote_calls (snd (snd (extendSandboxTimeout cfg this rt))) = Suc (remote_calls rt)
        \<and> \<not> isExtending (fst (snd (extendSandboxTimeout cfg this rt))))
   \<and> (fst (extendSandboxTimeout cfg this rt) = NeverSettles \<longleftrightarrow>
        \<not> isExtending this
        \<and> (\<exists>g. sandbox_setTimeout (sandbox this) = Some g
               \<and> g (remote_calls rt) (cfg_timeoutMs cfg) = RenewalPending))"
proof (intro conjI impI)
  assume "isExtending this"
  then show "extendSandboxTimeout cfg this rt =
        (Returns (), this,
         rt\<lparr>extend_calls := Suc (extend_calls rt),
            console := console rt
              @ [ConsoleLog ''[SandboxTimeoutManager] Already extending timeout, skipping...'']\<rparr>)"
    and "remote_calls (snd (snd (extendSandboxTimeout cfg this rt))) = remote_calls rt"
    by (simp_all add: extendSandboxTimeout_def console_log_def Let_def)
next
  assume "\<not> isExtending this \<and> fst (extendSandboxTimeout cfg this rt) \<noteq> NeverSettles"
  then show "\<not> isExtending (fst (snd (extendSandboxTimeout cfg this rt)))"
    using extendSandboxTimeout_isExtending [of cfg this rt] by simp
next
  assume a: "\<not> isExtending this \<and> sandbox_setTimeout (sandbox this) = Some f
        \<and> f (remote_calls rt) (cfg_timeoutMs cfg) = RenewalRejects e"
  then show "fst (extendSandboxTimeout cfg this rt) = Throws e"
    and "remote_calls (snd (snd (extendSandboxTimeout cfg this rt))) = Suc (remote_calls rt)"
    and "\<not> isExtending (fst (snd (extendSandboxTimeout cfg this rt)))"
    by (simp_all add: extendSandboxTimeout_def Let_def)
next
  show "fst (extendSandboxTimeout cfg this rt) = NeverSettles \<longleftrightarrow>
        \<not> isExtending this
        \<and> (\<exists>g. sandbox_setTimeout (sandbox this) = Some g
               \<and> g (remote_calls rt) (cfg_timeoutMs cfg) = RenewalPending)"
    by (auto simp: extendSandboxTimeout_def updateLastActivity_def Date_now_def Let_def
             split: option.splits renewal.splits)
qed

theorem extendSandboxTimeout_guard_witness:
  "extendSandboxTimeout documented_config
     ((idle_manager live_sandbox no_options)\<lparr>isExtending := True\<rparr>) fresh_runtime
     = (Returns (), (idle_manager live_sandbox no_options)\<lparr>isExtending := True\<rparr>,
        fresh_runtime\<lparr>extend_calls := 1,
          console := [ConsoleLog ''[SandboxTimeoutManager] Already extending timeout, skipping...'']\<rparr>)
   \<and> remote_calls (snd (snd (extendSandboxTimeout documented_config
         ((idle_manager live_sandbox no_options)\<lparr>isExtending := True\<rparr>) fresh_runtime))) = 0
   \<and> fst (extendSandboxTimeout documented_config
         (idle_manager live_sandbox no_options) fresh_runtime) = Returns ()
   \<and> \<not> isExtending (fst (snd (extendSandboxTimeout documented_config
         (idle_manager live_sandbox no_options) fresh_runtime)))
   \<and> fst (extendSandboxTimeout documented_config
         (idle_manager gone_sandbox no_options) fresh_runtime)
       = Throws (ErrorValue (Error ''sandbox gone''))
   \<and> remote_calls (snd (snd (extendSandboxTimeout documented_config
         (idle_manager gone_sandbox no_options) fresh_runtime))) = 1
   \<and> \<not> isExtending (fst (snd (extendSandboxTimeout documented_config
         (idle_manager gone_sandbox no_options) fresh_runtime)))
   \<and> fst (extendSandboxTimeout documented_config
         (idle_manager stalled_sandbox no_options) fresh_runtime) = NeverSettles"
proof -
  have live: "fst (extendSandboxTimeout documented_config
                (idle_manager live_sandbox no_options) fresh_runtime) = Returns ()"
    by (simp add: extendSandboxTimeout_def updateLastActivity_def Date_now_def Let_def
          idle_manager_def live_sandbox_def)
  show ?thesis
    using live
      extendSandboxTimeout_guard [where cfg = documented_config and rt = fresh_runtime
          and this = "(idle_manager live_sandbox no_options)\<lparr>isExtending := True\<rparr>"]
      extendSandboxTimeout_guard [where cfg = documented_config and rt = fresh_runtime
          and this = "idle_manager live_sandbox no_options"]
      extendSandboxTimeout_guard [where cfg = documented_config and rt = fresh_runtime
          and this = "idle_manager gone_sandbox no_options"
          and f = "\<lambda>k ms. RenewalRejects (ErrorValue (Error ''sandbox gone''))"
          and e = "ErrorValue (Error ''sandbox gone'')"]
      extendSandboxTimeout_guard [where cfg = documented_config and rt = fresh_runtime
          and this = "idle_manager stalled_sandbox no_options"]
    by (simp add: demo_defs)
qed

subsection \<open>The global slot\<close>

text \<open>
  C9. The global slot is one optional reference. \<open>setGlobalTimeoutManager v\<close> first runs
  \<open>cleanup\<close> on the manager that is installed (the slot still holds it then, and its
  interval timer is cancelled), then stores \<open>v\<close>, which \<open>getGlobalTimeoutManager\<close>
  returns afterwards.
\<close>

theorem setGlobalTimeoutManager_replaces:
  assumes "globalTimeoutManager g = Some r" and "objects g r = Some m"
  shows "setGlobalTimeoutManager v g = (cleanup_previous g)\<lparr>globalTimeoutManager := v\<rparr>
         \<and> getGlobalTimeoutManager (cleanup_previous g) = Some r
         \<and> objects (cleanup_previous g) r = Some (fst (cleanup m (process_runtime g)))
         \<and> process_runtime (cleanup_previous g) = snd (cleanup m (process_runtime g))
         \<and> objects (setGlobalTimeoutManager v g) r = Some (m\<lparr>autoExtendTimer := None\<rparr>)
         \<and> (\<forall>t ms. autoExtendTimer m = Some t \<longrightarrow>
               (t, ms) \<notin> set (intervals (process_runtime (setGlobalTimeoutManager v g))))
         \<and> getGlobalTimeoutManager (setGlobalTimeoutManager v g) = v"
  using assms
  by (cases "autoExtendTimer m")
     (auto simp: setGlobalTimeoutManager_def cleanup_previous_def getGlobalTimeoutManager_def
        cleanup_def clearInterval_def)

lemma armed_manager_timer: "autoExtendTimer armed_manager = Some 0"
  by (simp add: armed_manager_def new_SandboxTimeoutManager_def startAutoExtendTimer_def
        setInterval_def Date_now_def console_log_def demo_defs Let_def)

lemma armed_intervals: "intervals (process_runtime armed_process) = [(0, 60000)]"
  by (simp add: armed_process_def new_SandboxTimeoutManager_def startAutoExtendTimer_def
        setInterval_def Date_now_def console_log_def demo_defs Let_def)

theorem setGlobalTimeoutManager_replaces_witness:
  "getGlobalTimeoutManager (cleanup_previous armed_process) = Some 0
   \<and> objects (setGlobalTimeoutManager (Some 1) armed_process) 0
       = Some (armed_manager\<lparr>autoExtendTimer := None\<rparr>)
   \<and> intervals (process_runtime armed_process) = [(0, 60000)]
   \<and> (0, 60000) \<notin> set (intervals (process_runtime (setGlobalTimeoutManager (Some 1) armed_process)))
   \<and> getGlobalTimeoutManager (setGlobalTimeoutManager (Some 1) armed_process) = Some 1"
proof -
  have slot: "globalTimeoutManager armed_process = Some 0"
    and obj: "objects armed_process 0 = Some armed_manager"
    by (simp_all add: armed_process_def)
  note r = setGlobalTimeoutManager_replaces [OF slot obj, of "Some 1"]
  from r have 1: "getGlobalTimeoutManager (cleanup_previous armed_process) = Some 0"
    by blast
  from r have 2: "objects (setGlobalTimeoutManager (Some 1) armed_process) 0
                    = Some (armed_manager\<lparr>autoExtendTimer := None\<rparr>)"
    by blast
  from r armed_manager_timer
  have 3: "(0, 60000) \<notin> set (intervals (process_runtime
             (setGlobalTimeoutManager (Some 1) armed_process)))"
    by blast
  from r have 4: "getGlobalTimeoutManager (setGlobalTimeoutManager (Some 1) armed_process)
                    = Some 1"
    by blast
  from 1 2 3 4 armed_intervals show ?thesis
    by blast
qed


subsection \<open>The periodic check\<close>

lemma autoExtendTick_extend_calls:
  "autoExtendThreshold (options this) = Some t \<Longrightarrow>
     extend_calls (snd (snd (autoExtendTick cfg this rt))) =
       (if (of_int (t * 60 * 1000) :: rat) * (8 / 10)
             < of_int (clock rt (clock_reads rt) - lastActivity this)
        then Suc (extend_calls rt) else extend_calls rt)"
  using extendSandboxTimeout_keeps(5) [of cfg this
          "console_log ''[SandboxTimeoutManager] Auto-extending sandbox timeout...''
             (rt\<lparr>clock_reads := Suc (clock_reads rt)\<rparr>)"]
  by (auto simp: autoExtendTick_def autoExtendTick_try_def Date_now_def Let_def
        console_log_def console_error_def split: prod.splits completion.splits)

lemma extendSandboxTimeout_remote:
  "remote_calls (snd (snd (extendSandboxTimeout cfg this rt))) =
     (if \<not> isExtending this \<and> sandbox_setTimeout (sandbox this) \<noteq> None
      then Suc (remote_calls rt) else remote_calls rt)"
  by (simp add: extendSandboxTimeout_def updateLastActivity_def Date_now_def
        console_log_def console_warn_def Let_def split: option.splits renewal.splits)

lemma autoExtendTick_remote_calls:
  "autoExtendThreshold (options this) = Some t \<Longrightarrow>
     remote_calls (snd (snd (autoExtendTick cfg this rt))) =
       (if (of_int (t * 60 * 1000) :: rat) * (8 / 10)
             < of_int (clock rt (clock_reads rt) - lastActivity this)
           \<and> \<not> isExtending this \<and> sandbox_setTimeout (sandbox this) \<noteq> None
        then Suc (remote_calls rt) else remote_calls rt)"
  using extendSandboxTimeout_remote [of cfg this
          "console_log ''[SandboxTimeoutManager] Auto-extending sandbox timeout...''
             (rt\<lparr>clock_reads := Suc (clock_reads rt)\<rparr>)"]
  by (auto simp: autoExtendTick_def autoExtendTick_try_def Date_now_def Let_def
        console_log_def console_error_def split: prod.splits completion.splits)

text \<open>
  A caller who passes the key \<^verbatim>\<open>autoExtendThreshold\<close> with the value \<^verbatim>\<open>undefined\<close>
  overrides the default: no timer is armed.
\<close>

lemma undefined_threshold_arms_no_timer:
  "autoExtendTimer (fst (new_SandboxTimeoutManager cfg sb
      (opts\<lparr>opt_autoExtendThreshold := Some None\<rparr>) rt)) = None
   \<and> intervals (snd (new_SandboxTimeoutManager cfg sb
      (opts\<lparr>opt_autoExtendThreshold := Some None\<rparr>) rt)) = intervals rt"
  by (simp add: new_SandboxTimeoutManager_def startAutoExtendTimer_def merge_options_def
        Date_now_def Let_def)

text \<open>
  C7. With a threshold of \<open>t\<close> minutes configured, the constructor arms an interval of
  \<open>min (t * 60000 / 2) 60000\<close> milliseconds. A tick calls \<open>extendSandboxTimeout\<close>
  exactly when the time since the last activity exceeds \<open>0.8 * (t * 60000)\<close>; with a
  threshold of 5 minutes and 265 seconds without activity the tick makes exactly one such
  call, and with it one remote \<open>setTimeout\<close> when the sandbox has the method and no
  renewal is under way.
\<close>

theorem autoExtend_schedule:
  assumes "t \<noteq> 0"
  shows "(autoExtendThreshold (merge_options cfg opts) = Some t \<longrightarrow>
            autoExtendTimer (fst (new_SandboxTimeoutManager cfg sb opts boot))
              = Some (next_timer boot)
            \<and> intervals (snd (new_SandboxTimeoutManager cfg sb opts boot))
                = intervals boot @ [(next_timer boot, min (t * 60000 div 2) 60000)]
            \<and> 2 * (t * 60000 div 2) = t * 60000)
         \<and> (autoExtendThreshold (options this) = Some t \<longrightarrow>
              extend_calls (snd (snd (autoExtendTick cfg this rt))) =
                (if (of_int (t * 60000) :: rat) * (8 / 10)
                      < of_int (clock rt (clock_reads rt) - lastActivity this)
                 then extend_calls rt + 1 else extend_calls rt))
         \<and> (autoExtendThreshold (options this) = Some 5
              \<and> clock rt (clock_reads rt) - lastActivity this = 265000 \<longrightarrow>
              extend_calls (snd (snd (autoExtendTick cfg this rt))) = extend_calls rt + 1
              \<and> remote_calls (snd (snd (autoExtendTick cfg this rt)))
                  = (if \<not> isExtending this \<and> sandbox_setTimeout (sandbox this) \<noteq> None
                     then remote_calls rt + 1 else remote_calls rt))"
proof (intro conjI impI)
  assume th: "autoExtendThreshold (merge_options cfg opts) = Some t"
  with assms
  show "autoExtendTimer (fst (new_SandboxTimeoutManager cfg sb opts boot)) = Some (next_timer boot)"
    by (simp add: new_SandboxTimeoutManager_def startAutoExtendTimer_def setInterval_def
          Date_now_def console_log_def Let_def)
  from th assms
  show "intervals (snd (new_SandboxTimeoutManager cfg sb opts boot))
          = intervals boot @ [(next_timer boot, min (t * 60000 div 2) 60000)]"
    by (simp add: new_SandboxTimeoutManager_def startAutoExtendTimer_def setInterval_def
          Date_now_def console_log_def Let_def)
  show "2 * (t * 60000 div 2) = t * 60000"
    by simp
next
  assume "autoExtendThreshold (options this) = Some t"
  from autoExtendTick_extend_calls [OF this, of cfg rt]
  show "extend_calls (snd (snd (autoExtendTick cfg this rt))) =
          (if (of_int (t * 60000) :: rat) * (8 / 10)
                < of_int (clock rt (clock_reads rt) - lastActivity this)
           then extend_calls rt + 1 else extend_calls rt)"
    by simp
next
  assume "autoExtendThreshold (options this) = Some 5
            \<and> clock rt (clock_reads rt) - lastActivity this = 265000"
  then have th: "autoExtendThreshold (options this) = Some 5"
    and el: "clock rt (clock_reads rt) - lastActivity this = 265000"
    by simp_all
  from autoExtendTick_extend_calls [OF th, of cfg rt] el
  show "extend_calls (snd (snd (autoExtendTick cfg this rt))) = extend_calls rt + 1"
    by simp
  from autoExtendTick_remote_calls [OF th, where cfg = cfg and rt = rt] el
  show "remote_calls (snd (snd (autoExtendTick cfg this rt)))
          = (if \<not> isExtending this \<and> sandbox_setTimeout (sandbox this) \<noteq> None
             then remote_calls rt + 1 else remote_calls rt)"
    by simp
qed

theorem autoExtend_schedule_witness:
  "autoExtendTimer (fst (new_SandboxTimeoutManager documented_config live_sandbox no_options
      fresh_runtime)) = Some 0
   \<and> intervals (snd (new_SandboxTimeoutManager documented_config live_sandbox no_options
      fresh_runtime)) = [(0, 60000)]
   \<and> extend_calls (snd (snd (autoExtendTick documented_config
        (idle_manager live_sandbox no_options) quiet_runtime))) = 1
   \<and> remote_calls (snd (snd (autoExtendTick documented_config
        (idle_manager live_sandbox no_options) quiet_runtime))) = 1
   \<and> extend_calls (snd (snd (autoExtendTick documented_config
        (idle_manager live_sandbox no_options) fresh_runtime))) = 0"
  using autoExtend_schedule [where t = 5 and cfg = documented_config and opts = no_options
          and sb = live_sandbox and boot = fresh_runtime
          and this = "idle_manager live_sandbox no_options" and rt = quiet_runtime]
        autoExtend_schedule [where t = 5 and cfg = documented_config and opts = no_options
          and sb = live_sandbox and boot = fresh_runtime
          and this = "idle_manager live_sandbox no_options" and rt = fresh_runtime]
  by (simp add: demo_defs quiet_runtime_def)

subsection \<open>What the loop preserves\<close>





text \<open>What every attempt preserves, the whole loop preserves.\<close>

lemma loop_invariant:
  assumes step: "\<And>attempt this rt. P this rt \<Longrightarrow>
              P (fst (snd (attempt_body cfg operation operationName attempt this rt)))
                (snd (snd (attempt_body cfg operation operationName attempt this rt)))"
    and init: "P this rt"
  shows "P (fst (snd (executeWithTimeout_loop cfg operation operationName attempt lastError
                        this rt)))
           (snd (snd (executeWithTimeout_loop cfg operation operationName attempt lastError
                        this rt)))"
  using init
proof (induction "nat (maxRetries (options this) + 1 - attempt)"
         arbitrary: attempt lastError this rt)
  case 0
  then have "\<not> attempt \<le> maxRetries (options this)" by simp
  with 0 show ?case by (simp add: loop_exit)
next
  case (Suc k)
  let ?b = "attempt_body cfg operation operationName attempt this rt"
  from Suc.hyps(2) have le: "attempt \<le> maxRetries (options this)" by simp
  have P': "P (fst (snd ?b)) (snd (snd ?b))"
    by (rule step [OF Suc.prems])
  show ?case
  proof (cases "fst ?b")
    case (Return v)
    from loop_Return [OF le Return, of lastError] P' show ?thesis by simp
  next
    case (Throw e)
    from loop_Throw [OF le Throw, of lastError] P' show ?thesis by simp
  next
    case Stall
    from loop_Stall [OF le Stall, of lastError] P' show ?thesis by simp
  next
    case (Continue e)
    have "k = nat (maxRetries (options (fst (snd ?b))) + 1 - (attempt + 1))"
      using Suc.hyps(2) by (simp add: attempt_body_keeps)
    from Suc.hyps(1) [OF this P', of "Some e"] loop_Continue [OF le Continue, of lastError]
    show ?thesis by simp
  qed
qed

lemma loop_keeps:
  "options (fst (snd (executeWithTimeout_loop cfg operation operationName attempt lastError
      this rt))) = options this
   \<and> sandbox (fst (snd (executeWithTimeout_loop cfg operation operationName attempt lastError
      this rt))) = sandbox this"
  by (rule loop_invariant
        [where P = "\<lambda>t r. options t = options this \<and> sandbox t = sandbox this"])
     (simp_all add: attempt_body_keeps)




text \<open>
  While renewals settle, the outcome of the loop and the number of invocations are decided
  by the options and by the operation alone: two runs that agree on those agree on both,
  whatever else their sandboxes do.
\<close>

lemma loop_outcome_independent:
  assumes "options this' = options this" and "op_calls rt' = op_calls rt"
    and "renewals_settle (sandbox this')" and "renewals_settle (sandbox this)"
  shows "fst (executeWithTimeout_loop cfg operation operationName attempt lastError this' rt')
           = fst (executeWithTimeout_loop cfg operation operationName attempt lastError this rt)
         \<and> op_calls (snd (snd (executeWithTimeout_loop cfg operation operationName attempt
             lastError this' rt')))
           = op_calls (snd (snd (executeWithTimeout_loop cfg operation operationName attempt
               lastError this rt)))"
  using assms
proof (induction "nat (maxRetries (options this) + 1 - attempt)"
         arbitrary: attempt lastError this rt this' rt')
  case 0
  then have "\<not> attempt \<le> maxRetries (options this)"
    and "\<not> attempt \<le> maxRetries (options this')"
    by simp_all
  with 0 show ?case by (simp add: loop_exit)
next
  case (Suc k)
  let ?b = "attempt_body cfg operation operationName attempt this rt"
  let ?b' = "attempt_body cfg operation operationName attempt this' rt'"
  from Suc.hyps(2) have le: "attempt \<le> maxRetries (options this)" by simp
  then have le': "attempt \<le> maxRetries (options this')" by (simp add: Suc.prems)
  have same: "fst ?b' = fst ?b"
    by (simp add: attempt_body_fst Suc.prems split: sum.splits js_value.splits)
  have calls: "op_calls (snd (snd ?b')) = op_calls (snd (snd ?b))"
    by (simp add: attempt_body_keeps Suc.prems)
  show ?case
  proof (cases "fst ?b")
    case (Return v)
    from loop_Return [OF le Return, of lastError]
      loop_Return [OF le' Return [folded same], of lastError] calls
    show ?thesis by simp
  next
    case (Throw e)
    from loop_Throw [OF le Throw, of lastError]
      loop_Throw [OF le' Throw [folded same], of lastError] calls
    show ?thesis by simp
  next
    case Stall
    from loop_Stall [OF le Stall, of lastError]
      loop_Stall [OF le' Stall [folded same], of lastError] calls
    show ?thesis by simp
  next
    case (Continue e)
    have m: "k = nat (maxRetries (options (fst (snd ?b))) + 1 - (attempt + 1))"
      using Suc.hyps(2) by (simp add: attempt_body_keeps)
    have o: "options (fst (snd ?b')) = options (fst (snd ?b))"
      and s': "renewals_settle (sandbox (fst (snd ?b')))"
      and s: "renewals_settle (sandbox (fst (snd ?b)))"
      by (simp_all add: attempt_body_keeps Suc.prems)
    from Suc.hyps(1) [OF m o calls s' s, of "Some e"]
      loop_Continue [OF le Continue, of lastError]
      loop_Continue [OF le' Continue [folded same], of lastError]
    show ?thesis by simp
  qed
qed

subsection \<open>The 502 scenario\<close>




subsection \<open>Renewal failures\<close>

lemma attempt_body_renewal_rejected:
  assumes "withTimeout (operation (op_calls rt)) (processTimeout (options this))
             = Inl (ErrorValue error)"
    and "isTimeoutError error" and "\<not> isExtending this"
    and "sandbox_setTimeout (sandbox this) = Some f"
    and "f (remote_calls rt) (cfg_timeoutMs cfg) = RenewalRejects e'"
  shows "fst (attempt_body cfg operation operationName attempt this rt)
           = (if attempt = maxRetries (options this)
              then Throw (Error (failure_message operationName (maxRetries (options this))
                     error))
              else Continue error)"
    and "ConsoleError ''[SandboxTimeoutManager] Failed to extend sandbox timeout:'' e'
           \<in> set (console (snd (snd (attempt_body cfg operation operationName attempt this rt))))"
  using assms
  by (simp_all add: attempt_body_def extend_on_timeout_def extendSandboxTimeout_def
        updateLastActivity_def invoke_def Date_now_def console_log_def console_error_def
        delay_def Let_def)

lemma autoExtendTick_never_throws: "fst (autoExtendTick cfg this rt) \<noteq> Throws e"
  by (simp add: autoExtendTick_def split: prod.splits completion.splits)

lemma autoExtendTick_returns:
  assumes "renewals_settle (sandbox this)"
  shows "fst (autoExtendTick cfg this rt) = Returns ()"
proof -
  have "fst (autoExtendTick_try cfg this rt) \<noteq> NeverSettles"
    using extendSandboxTimeout_settles [OF assms]
    by (simp add: autoExtendTick_try_def Date_now_def Let_def split: option.splits)
  then show ?thesis
    by (auto simp: autoExtendTick_def split: prod.splits completion.splits)
qed

lemma autoExtendTick_logs:
  "fst (autoExtendTick_try cfg this rt) = Throws e \<Longrightarrow>
     console (snd (snd (autoExtendTick cfg this rt)))
       = console (snd (snd (autoExtendTick_try cfg this rt)))
           @ [ConsoleError ''[SandboxTimeoutManager] Auto-extend failed:'' e]"
  by (auto simp: autoExtendTick_def console_error_def split: prod.splits completion.splits)

text \<open>
  C6. A renewal that fails is caught and logged. In \<open>executeWithTimeout\<close>: when the
  remote \<open>setTimeout\<close> rejects during an attempt, the console receives the error and the
  attempt ends as it would have without the renewal, with \<open>Continue\<close> while attempts
  remain and with the wrapped error of the operation on the last one; the result of the
  whole call and the number of invocations are the same for every sandbox whose renewals
  settle, rejecting or not. In the periodic tick: the callback never throws, it returns
  normally whenever the renewal settles, and it logs what its body threw.
\<close>

theorem renewal_failure_contained:
  "(withTimeout (operation (op_calls rt)) (processTimeout (options this))
        = Inl (ErrorValue error)
      \<and> isTimeoutError error \<and> \<not> isExtending this
      \<and> sandbox_setTimeout (sandbox this) = Some f
      \<and> f (remote_calls rt) (cfg_timeoutMs cfg) = RenewalRejects e' \<longrightarrow>
      fst (attempt_body cfg operation operationName attempt this rt)
        = (if attempt = maxRetries (options this)
           then Throw (Error (failure_message operationName (maxRetries (options this)) error))
           else Continue error)
      \<and> ConsoleError ''[SandboxTimeoutManager] Failed to extend sandbox timeout:'' e'
           \<in> set (console (snd (snd (attempt_body cfg operation operationName attempt this rt)))))
   \<and> (renewals_settle sb \<and> renewals_settle (sandbox this) \<longrightarrow>
        fst (executeWithTimeout cfg operation operationName (this\<lparr>sandbox := sb\<rparr>) rt)
          = fst (executeWithTimeout cfg operation operationName this rt)
        \<and> op_calls (snd (snd (executeWithTimeout cfg operation operationName
              (this\<lparr>sandbox := sb\<rparr>) rt)))
          = op_calls (snd (snd (executeWithTimeout cfg operation operationName this rt))))
   \<and> fst (autoExtendTick cfg this rt) \<noteq> Throws e
   \<and> (renewals_settle (sandbox this) \<longrightarrow> fst (autoExtendTick cfg this rt) = Returns ())
   \<and> (fst (autoExtendTick_try cfg this rt) = Throws e \<longrightarrow>
        console (snd (snd (autoExtendTick cfg this rt)))
          = console (snd (snd (autoExtendTick_try cfg this rt)))
              @ [ConsoleError ''[SandboxTimeoutManager] Auto-extend failed:'' e])"
proof (intro conjI impI)
  assume a: "withTimeout (operation (op_calls rt)) (processTimeout (options this))
        = Inl (ErrorValue error)
      \<and> isTimeoutError error \<and> \<not> isExtending this
      \<and> sandbox_setTimeout (sandbox this) = Some f
      \<and> f (remote_calls rt) (cfg_timeoutMs cfg) = RenewalRejects e'"
  then have 1: "withTimeout (operation (op_calls rt)) (processTimeout (options this))
        = Inl (ErrorValue error)"
    and 2: "isTimeoutError error" and 3: "\<not> isExtending this"
    and 4: "sandbox_setTimeout (sandbox this) = Some f"
    and 5: "f (remote_calls rt) (cfg_timeoutMs cfg) = RenewalRejects e'"
    by simp_all
  show "fst (attempt_body cfg operation operationName attempt this rt)
        = (if attempt = maxRetries (options this)
           then Throw (Error (failure_message operationName (maxRetries (options this)) error))
           else Continue error)"
    by (rule attempt_body_renewal_rejected(1)
          [where operation = operation and rt = rt and this = this and f = f and cfg = cfg,
           OF 1 2 3 4 5])
  show "ConsoleError ''[SandboxTimeoutManager] Failed to extend sandbox timeout:'' e'
           \<in> set (console (snd (snd (attempt_body cfg operation operationName attempt this rt))))"
    by (rule attempt_body_renewal_rejected(2)
          [where operation = operation and rt = rt and this = this and f = f and cfg = cfg,
           OF 1 2 3 4 5])
next
  assume s: "renewals_settle sb \<and> renewals_settle (sandbox this)"
  have o: "options (this\<lparr>sandbox := sb\<rparr>) = options this" by simp
  have s1: "renewals_settle (sandbox (this\<lparr>sandbox := sb\<rparr>))" using s by simp
  have s2: "renewals_settle (sandbox this)" using s by simp
  from loop_outcome_independent [OF o refl s1 s2, of cfg operation operationName 1 None rt]
  show "fst (executeWithTimeout cfg operation operationName (this\<lparr>sandbox := sb\<rparr>) rt)
       = fst (executeWithTimeout cfg operation operationName this rt)"
    and "op_calls (snd (snd (executeWithTimeout cfg operation operationName
         (this\<lparr>sandbox := sb\<rparr>) rt)))
       = op_calls (snd (snd (executeWithTimeout cfg operation operationName this rt)))"
    by (simp_all add: executeWithTimeout_def)
next
  show "fst (autoExtendTick cfg this rt) \<noteq> Throws e"
    by (rule autoExtendTick_never_throws)
next
  assume "renewals_settle (sandbox this)"
  then show "fst (autoExtendTick cfg this rt) = Returns ()"
    by (rule autoExtendTick_returns)
next
  assume "fst (autoExtendTick_try cfg this rt) = Throws e"
  then show "console (snd (snd (autoExtendTick cfg this rt)))
          = console (snd (snd (autoExtendTick_try cfg this rt)))
              @ [ConsoleError ''[SandboxTimeoutManager] Auto-extend failed:'' e]"
    by (rule autoExtendTick_logs)
qed

lemma gone_tick_throws:
  "fst (autoExtendTick_try documented_config (idle_manager gone_sandbox no_options)
          quiet_runtime) = Throws (ErrorValue (Error ''sandbox gone''))"
  by (simp add: autoExtendTick_try_def extendSandboxTimeout_def Date_now_def console_log_def
        Let_def demo_defs quiet_runtime_def)

theorem renewal_failure_contained_witness:
  "fst (attempt_body documented_config rejects_bad_gateway ''ping'' 1
          (idle_manager gone_sandbox no_options) fresh_runtime)
     = Continue (Error ''Error: 502 Bad Gateway'')
   \<and> ConsoleError ''[SandboxTimeoutManager] Failed to extend sandbox timeout:''
         (ErrorValue (Error ''sandbox gone''))
       \<in> set (console (snd (snd (attempt_body documented_config rejects_bad_gateway ''ping'' 1
          (idle_manager gone_sandbox no_options) fresh_runtime))))
   \<and> fst (executeWithTimeout documented_config rejects_bad_gateway ''ping''
          (idle_manager bare_sandbox no_options) fresh_runtime)
     = fst (executeWithTimeout documented_config rejects_bad_gateway ''ping''
          (idle_manager gone_sandbox no_options) fresh_runtime)
   \<and> fst (autoExtendTick documented_config (idle_manager gone_sandbox no_options)
          quiet_runtime) = Returns ()
   \<and> console (snd (snd (autoExtendTick documented_config
          (idle_manager gone_sandbox no_options) quiet_runtime)))
     = console (snd (snd (autoExtendTick_try documented_config
          (idle_manager gone_sandbox no_options) quiet_runtime)))
         @ [ConsoleError ''[SandboxTimeoutManager] Auto-extend failed:''
              (ErrorValue (Error ''sandbox gone''))]"
proof -
  let ?op = "rejects_bad_gateway"
  let ?m = "idle_manager gone_sandbox no_options"
  let ?f = "\<lambda>k ms. RenewalRejects (ErrorValue (Error ''sandbox gone''))"
  have h: "withTimeout (?op (op_calls fresh_runtime)) (processTimeout (options ?m))
             = Inl (ErrorValue (Error ''Error: 502 Bad Gateway''))
           \<and> isTimeoutError (Error ''Error: 502 Bad Gateway'') \<and> \<not> isExtending ?m
           \<and> sandbox_setTimeout (sandbox ?m) = Some ?f
           \<and> ?f (remote_calls fresh_runtime) (cfg_timeoutMs documented_config)
               = RenewalRejects (ErrorValue (Error ''sandbox gone''))"
    by (simp add: withTimeout_def bad_gateway_timeout idle_manager_def gone_sandbox_def
          rejects_bad_gateway_def)
  have neq: "(1::int) \<noteq> maxRetries (options ?m)"
    by (simp add: demo_defs)
  have swap: "?m\<lparr>sandbox := bare_sandbox\<rparr> = idle_manager bare_sandbox no_options"
    by (simp add: idle_manager_def)
  have st: "renewals_settle bare_sandbox \<and> renewals_settle (sandbox ?m)"
    by (simp add: renewals_settle_def demo_defs)
  note a = renewal_failure_contained [where operation = ?op and rt = fresh_runtime
      and this = ?m and error = "Error ''Error: 502 Bad Gateway''"
      and f = ?f and cfg = documented_config
      and e' = "ErrorValue (Error ''sandbox gone'')" and operationName = "''ping''"
      and attempt = 1 and sb = bare_sandbox]
  note b = renewal_failure_contained [where operation = ?op and rt = quiet_runtime
      and this = ?m and cfg = documented_config and sb = bare_sandbox
      and e = "ErrorValue (Error ''sandbox gone'')"]
  from a h neq
  have 1: "fst (attempt_body documented_config ?op ''ping'' 1 ?m fresh_runtime)
             = Continue (Error ''Error: 502 Bad Gateway'')"
    by presburger
  from a h
  have 2: "ConsoleError ''[SandboxTimeoutManager] Failed to extend sandbox timeout:''
             (ErrorValue (Error ''sandbox gone''))
           \<in> set (console (snd (snd (attempt_body documented_config ?op ''ping'' 1 ?m
                 fresh_runtime))))"
    by blast
  from a st
  have 3: "fst (executeWithTimeout documented_config ?op ''ping''
                 (idle_manager bare_sandbox no_options) fresh_runtime)
             = fst (executeWithTimeout documented_config ?op ''ping'' ?m fresh_runtime)"
    unfolding swap by blast
  from b st have 4: "fst (autoExtendTick documented_config ?m quiet_runtime) = Returns ()"
    by blast
  from b gone_tick_throws
  have 5: "console (snd (snd (autoExtendTick documented_config ?m quiet_runtime)))
             = console (snd (snd (autoExtendTick_try documented_config ?m quiet_runtime)))
                 @ [ConsoleError ''[SandboxTimeoutManager] Auto-extend failed:''
                      (ErrorValue (Error ''sandbox gone''))]"
    by blast
  from 1 2 3 4 5 show ?thesis
    by blast
qed

end
